theory Spec2Isabelle
  imports Main "HOL-Library.Word" "HOL-Library.List_Lexorder" "HOL-Library.Char_ord"
    "HOL-Library.Sublist"
begin

unbundle bit_operations_syntax

section \<open>Data model\<close>

text \<open>
  The ingestion-token collection of \<^verbatim>\<open>models/ingestionToken\<close>. An \<^verbatim>\<open>ObjectId\<close> is
  represented by its string form (what \<^verbatim>\<open>toString()\<close> yields); the controller
  parameters of type \<^verbatim>\<open>string | mongoose.Types.ObjectId\<close> are taken as ObjectIds, so
  \<^verbatim>\<open>new mongoose.Types.ObjectId(x)\<close> is the identity. A \<^verbatim>\<open>Date\<close> is its epoch
  milliseconds. Optional fields are options. The collection is a list in insertion
  (natural) order, the order in which \<^verbatim>\<open>findOne\<close> meets the documents. The field
  \<^verbatim>\<open>_id\<close> is written \<open>oid\<close>.
\<close>

type_synonym ObjectId = string
type_synonym Date = nat

datatype IngestionTokenStatus = Active | Revoked

record IIngestionToken =
  oid :: ObjectId
  team :: ObjectId
  tokenHash :: string
  tokenPrefix :: string
  status :: IngestionTokenStatus
  assignedShard :: "string option"
  description :: "string option"
  lastUsedAt :: "Date option"
  revokedAt :: "Date option"
  createdAt :: "Date option"
  updatedAt :: "Date option"

type_synonym collection = "IIngestionToken list"

text \<open>JavaScript truthiness of an optional string: \<^verbatim>\<open>undefined\<close>, \<^verbatim>\<open>null\<close> and the
  empty string are falsy.\<close>

definition truthy :: "string option \<Rightarrow> bool" where
  "truthy v = (case v of None \<Rightarrow> False | Some s \<Rightarrow> s \<noteq> [])"

text \<open>\<^verbatim>\<open>Model.findOne(filter)\<close>: the first document that matches.\<close>

definition findOne :: "('a \<Rightarrow> bool) \<Rightarrow> 'a list \<Rightarrow> 'a option" where
  "findOne P xs = List.find P xs"

text \<open>\<^verbatim>\<open>Model.findOneAndUpdate(filter, update, {new: true})\<close>: the first document that
  matches is replaced by its update, which is returned; \<^verbatim>\<open>null\<close> when none matches.\<close>

fun findOneAndUpdate :: "('a \<Rightarrow> bool) \<Rightarrow> ('a \<Rightarrow> 'a) \<Rightarrow> 'a list \<Rightarrow> 'a option \<times> 'a list" where
  "findOneAndUpdate P f [] = (None, [])"
| "findOneAndUpdate P f (x # xs) =
     (if P x then (Some (f x), f x # xs)
      else (fst (findOneAndUpdate P f xs), x # snd (findOneAndUpdate P f xs)))"

section \<open>Shard allocator (utils/sharding.ts)\<close>

text \<open>The template literal \<^verbatim>\<open>`shard-${i}`\<close> prints the loop counter in decimal.\<close>

definition digit_char :: "nat \<Rightarrow> char" where
  "digit_char d = char_of (48 + d)"

fun show_nat :: "nat \<Rightarrow> string" where
  "show_nat n = (if n < 10 then [digit_char n] else show_nat (n div 10) @ [digit_char (n mod 10)])"

declare show_nat.simps [simp del]

definition shardName :: "nat \<Rightarrow> string" where
  "shardName i = ''shard-'' @ show_nat i"

text \<open>The first loop of \<^verbatim>\<open>findNextAvailableShard\<close>: the \<^verbatim>\<open>Map<string, Set<string>>\<close> of
  teams per shard; tokens with a falsy \<^verbatim>\<open>assignedShard\<close> are skipped.\<close>

fun build_teamsPerShard ::
  "IIngestionToken list \<Rightarrow> (string \<rightharpoonup> ObjectId set) \<Rightarrow> (string \<rightharpoonup> ObjectId set)" where
  "build_teamsPerShard [] m = m"
| "build_teamsPerShard (t # ts) m =
     (if \<not> truthy (assignedShard t) then build_teamsPerShard ts m
      else build_teamsPerShard ts
             (m(the (assignedShard t) \<mapsto>
                insert (team t) (case m (the (assignedShard t)) of None \<Rightarrow> {} | Some S \<Rightarrow> S))))"

text \<open>The second loop: \<^verbatim>\<open>for (let i = 0; i < shardCount; i++)\<close>, returning the first
  shard whose team set is absent or empty, \<^verbatim>\<open>null\<close> after the loop. The count comes
  from \<^verbatim>\<open>Number.parseInt\<close> and is an integer; a count that is not positive (or is
  \<^verbatim>\<open>NaN\<close>, for which the loop test is false as well) gives no iteration.\<close>

function shard_scan :: "(string \<rightharpoonup> ObjectId set) \<Rightarrow> int \<Rightarrow> nat \<Rightarrow> string option" where
  "shard_scan teamsPerShard shardCount i =
     (if int i < shardCount then
        (case teamsPerShard (shardName i) of
           None \<Rightarrow> Some (shardName i)
         | Some teamsInShard \<Rightarrow>
             if teamsInShard = {} then Some (shardName i)
             else shard_scan teamsPerShard shardCount (Suc i))
      else None)"
  by pat_completeness auto
termination
  by (relation "measure (\<lambda>(m, n, i). nat n - i)") auto

declare shard_scan.simps [simp del]

definition findNextAvailableShard ::
  "int \<Rightarrow> ObjectId option \<Rightarrow> collection \<Rightarrow> string option" where
  "findNextAvailableShard shardCount excludeTeamId db =
     (let activeTokens =
            filter (\<lambda>t. status t = Active \<and>
                         (if truthy excludeTeamId then team t \<noteq> the excludeTeamId else True)) db;
          teamsPerShard = build_teamsPerShard activeTokens Map.empty
      in shard_scan teamsPerShard shardCount 0)"

text \<open>A shard is occupied when some team has an active token assigned to it.\<close>

definition shard_occupied :: "collection \<Rightarrow> string \<Rightarrow> bool" where
  "shard_occupied db s = (\<exists>t \<in> set db. status t = Active \<and> assignedShard t = Some s)"

section \<open>Token codec (utils/ingestionTokens)\<close>

text \<open>
  SHA-256 (\<^verbatim>\<open>crypto.createHash\<close>) and the random source (\<^verbatim>\<open>crypto.randomBytes\<close>) are
  library code: the hash is a parameter of the model, and the random draw, the fresh
  \<^verbatim>\<open>_id\<close> and the clock reading of one call are given to it.
\<close>

record sys =
  sha256hex :: "string \<Rightarrow> string"
  INGESTION_SHARD_COUNT :: int

record gen =
  randomBase64url :: string
  newObjectId :: ObjectId
  now :: Date

definition hashIngestionToken :: "sys \<Rightarrow> string \<Rightarrow> string" where
  "hashIngestionToken cfg token = sha256hex cfg token"

definition generateIngestionToken :: "gen \<Rightarrow> string" where
  "generateIngestionToken g = ''hdx_ingest_'' @ randomBase64url g"

text \<open>\<^verbatim>\<open>tokenPrefix(token, chars = 12)\<close>; the name \<open>tokenPrefix\<close> is the record field.\<close>

definition tokenPrefix_of :: "string \<Rightarrow> nat \<Rightarrow> string" where
  "tokenPrefix_of token chars = take chars token"

section \<open>Ingestion token registry (controllers/ingestionToken, controllers/ingestionAuth)\<close>

datatype error = NoAvailableShards | DuplicateKey

record resolved =
  r_tokenId :: ObjectId
  r_tokenHash :: string
  r_teamId :: ObjectId
  r_assignedShard :: "string option"

definition resolveIngestionToken :: "sys \<Rightarrow> string \<Rightarrow> collection \<Rightarrow> resolved option" where
  "resolveIngestionToken cfg token db =
     (let h = hashIngestionToken cfg token in
      case findOne (\<lambda>d. tokenHash d = h \<and> status d = Active) db of
        None \<Rightarrow> None
      | Some doc \<Rightarrow>
          Some \<lparr>r_tokenId = oid doc, r_tokenHash = h, r_teamId = team doc,
                r_assignedShard = assignedShard doc\<rparr>)"

text \<open>\<^verbatim>\<open>updateOne({_id}, {$set: {lastUsedAt}})\<close>; the schema has \<^verbatim>\<open>timestamps: true\<close>, so
  every update also sets \<^verbatim>\<open>updatedAt\<close>.\<close>

definition markIngestionTokenUsed :: "Date \<Rightarrow> ObjectId \<Rightarrow> collection \<Rightarrow> collection" where
  "markIngestionTokenUsed t tokenId db =
     snd (findOneAndUpdate (\<lambda>d. oid d = tokenId)
            (\<lambda>d. d\<lparr>lastUsedAt := Some t, updatedAt := Some t\<rparr>) db)"

text \<open>\<^verbatim>\<open>IngestionToken.create\<close>: the collection has unique indexes on \<^verbatim>\<open>_id\<close> and on
  \<^verbatim>\<open>tokenHash\<close> (\<^verbatim>\<open>unique: true\<close> in the schema); a duplicate is rejected.\<close>

definition insert_token :: "IIngestionToken \<Rightarrow> collection \<Rightarrow> error + collection" where
  "insert_token doc db =
     (if list_ex (\<lambda>d. oid d = oid doc \<or> tokenHash d = tokenHash doc) db
      then Inl DuplicateKey else Inr (db @ [doc]))"

record create_params =
  p_teamId :: ObjectId
  p_description :: "string option"
  p_assignedShard :: "string option"

text \<open>The shard selection of \<^verbatim>\<open>createIngestionToken\<close> (the \<^verbatim>\<open>let assignedShard\<close> block).\<close>

definition select_shard :: "sys \<Rightarrow> create_params \<Rightarrow> collection \<Rightarrow> error + string" where
  "select_shard cfg params db =
     (if truthy (p_assignedShard params) then Inr (the (p_assignedShard params))
      else
        (case findOne (\<lambda>d. team d = p_teamId params \<and> status d = Active) db of
           Some existingToken \<Rightarrow>
             if truthy (assignedShard existingToken) then Inr (the (assignedShard existingToken))
             else (let nextShard = findNextAvailableShard (INGESTION_SHARD_COUNT cfg) None db in
                   if \<not> truthy nextShard then Inl NoAvailableShards else Inr (the nextShard))
         | None \<Rightarrow>
             (let nextShard = findNextAvailableShard (INGESTION_SHARD_COUNT cfg) None db in
              if \<not> truthy nextShard then Inl NoAvailableShards else Inr (the nextShard))))"

text \<open>Every operation returns its result together with the collection it leaves
  behind; a thrown error leaves the collection as it was when the error was thrown.\<close>

definition createIngestionToken ::
  "sys \<Rightarrow> gen \<Rightarrow> create_params \<Rightarrow> collection
     \<Rightarrow> (error + string \<times> IIngestionToken) \<times> collection" where
  "createIngestionToken cfg g params db =
     (let token = generateIngestionToken g;
          h = hashIngestionToken cfg token
      in case select_shard cfg params db of
           Inl e \<Rightarrow> (Inl e, db)
         | Inr shard \<Rightarrow>
             (let doc = \<lparr>oid = newObjectId g, team = p_teamId params, tokenHash = h,
                         tokenPrefix = tokenPrefix_of token 12, status = Active,
                         assignedShard = Some shard, description = p_description params,
                         lastUsedAt = None, revokedAt = None,
                         createdAt = Some (now g), updatedAt = Some (now g)\<rparr>
              in case insert_token doc db of
                   Inl e \<Rightarrow> (Inl e, db)
                 | Inr db' \<Rightarrow> (Inr (token, doc), db')))"

definition revokeIngestionToken ::
  "Date \<Rightarrow> ObjectId \<Rightarrow> ObjectId \<Rightarrow> collection \<Rightarrow> IIngestionToken option \<times> collection" where
  "revokeIngestionToken t teamId tokenId db =
     findOneAndUpdate (\<lambda>d. oid d = tokenId \<and> team d = teamId)
       (\<lambda>d. d\<lparr>status := Revoked, revokedAt := Some t, updatedAt := Some t\<rparr>) db"

definition rotateIngestionToken ::
  "sys \<Rightarrow> Date \<Rightarrow> gen \<Rightarrow> ObjectId \<Rightarrow> ObjectId \<Rightarrow> collection
     \<Rightarrow> (error + string \<times> IIngestionToken) \<times> collection" where
  "rotateIngestionToken cfg t g teamId tokenId db =
     (let db1 = snd (revokeIngestionToken t teamId tokenId db)
      in createIngestionToken cfg g
           \<lparr>p_teamId = teamId, p_description = None, p_assignedShard = None\<rparr> db1)"

text \<open>\<^verbatim>\<open>assignIngestionTokenShard\<close>: the first component says whether the warning about
  other teams on the target shard is logged.\<close>

definition assignIngestionTokenShard ::
  "Date \<Rightarrow> ObjectId \<Rightarrow> ObjectId \<Rightarrow> string \<Rightarrow> collection
     \<Rightarrow> bool \<times> IIngestionToken option \<times> collection" where
  "assignIngestionTokenShard t teamId tokenId shard db =
     (let tokensInShard = filter (\<lambda>d. assignedShard d = Some shard \<and> status d = Active) db;
          teamsInShard = set (map team tokensInShard) - {teamId}
      in (teamsInShard \<noteq> {},
          findOneAndUpdate (\<lambda>d. oid d = tokenId \<and> team d = teamId \<and> status d = Active)
            (\<lambda>d. d\<lparr>assignedShard := Some shard, updatedAt := Some t\<rparr>) db))"

text \<open>The handler of \<^verbatim>\<open>router.delete('/:id')\<close> after \<^verbatim>\<open>validateRequest\<close> and
  \<^verbatim>\<open>getNonNullUserWithTeam\<close> have passed: the HTTP status and the collection.\<close>

definition delete_route :: "Date \<Rightarrow> ObjectId \<Rightarrow> ObjectId \<Rightarrow> collection \<Rightarrow> nat \<times> collection" where
  "delete_route t teamId tokenId db =
     (case revokeIngestionToken t teamId tokenId db of
        (None, db') \<Rightarrow> (404, db')
      | (Some updated, db') \<Rightarrow> (200, db'))"

text \<open>A token with the given id exists under the given team.\<close>

definition token_of_team :: "ObjectId \<Rightarrow> ObjectId \<Rightarrow> collection \<Rightarrow> bool" where
  "token_of_team teamId tokenId db = list_ex (\<lambda>d. oid d = tokenId \<and> team d = teamId) db"

text \<open>The insert of a create with these draws would be refused: a document with
  the new \<^verbatim>\<open>_id\<close> or with the hash of the new token is already stored.\<close>

definition duplicate_key :: "sys \<Rightarrow> gen \<Rightarrow> collection \<Rightarrow> bool" where
  "duplicate_key cfg g db =
     list_ex (\<lambda>d. oid d = newObjectId g
                  \<or> tokenHash d = hashIngestionToken cfg (generateIngestionToken g)) db"

text \<open>The record with the given id is stored and active.\<close>

definition record_active :: "ObjectId \<Rightarrow> collection \<Rightarrow> bool" where
  "record_active k db = list_ex (\<lambda>d. oid d = k \<and> status d = Active) db"

text \<open>Sequences of registry operations, to speak about the states that follow a create.\<close>

datatype operation =
    OpCreate gen create_params
  | OpRevoke Date ObjectId ObjectId
  | OpRotate Date gen ObjectId ObjectId
  | OpMarkUsed Date ObjectId
  | OpAssignShard Date ObjectId ObjectId string

fun apply_operation :: "sys \<Rightarrow> operation \<Rightarrow> collection \<Rightarrow> collection" where
  "apply_operation cfg (OpCreate g params) db = snd (createIngestionToken cfg g params db)"
| "apply_operation cfg (OpRevoke t teamId tokenId) db = snd (revokeIngestionToken t teamId tokenId db)"
| "apply_operation cfg (OpRotate t g teamId tokenId) db = snd (rotateIngestionToken cfg t g teamId tokenId db)"
| "apply_operation cfg (OpMarkUsed t tokenId) db = markIngestionTokenUsed t tokenId db"
| "apply_operation cfg (OpAssignShard t teamId tokenId shard) db =
     snd (snd (assignIngestionTokenShard t teamId tokenId shard db))"

fun apply_operations :: "sys \<Rightarrow> operation list \<Rightarrow> collection \<Rightarrow> collection" where
  "apply_operations cfg [] db = db"
| "apply_operations cfg (x # xs) db = apply_operations cfg xs (apply_operation cfg x db)"

fun reassigns :: "ObjectId \<Rightarrow> operation \<Rightarrow> bool" where
  "reassigns k (OpAssignShard t teamId tokenId shard) = (tokenId = k)"
| "reassigns k _ = False"

text \<open>Invariant I4 for one team: its active tokens all carry the same shard.\<close>

definition team_shares_shard :: "collection \<Rightarrow> ObjectId \<Rightarrow> bool" where
  "team_shares_shard db teamId =
     (\<forall>a \<in> set db. \<forall>b \<in> set db.
        team a = teamId \<and> status a = Active \<and> team b = teamId \<and> status b = Active
          \<longrightarrow> assignedShard a = assignedShard b)"

text \<open>The record with id \<open>k\<close> is in the collection, the documents with id \<open>k\<close> are
  exactly those with token hash \<open>h\<close>, and they carry team \<open>tm\<close> and shard \<open>sh\<close>.\<close>

definition holds_record ::
  "ObjectId \<Rightarrow> string \<Rightarrow> ObjectId \<Rightarrow> string option \<Rightarrow> collection \<Rightarrow> bool" where
  "holds_record k h tm sh db =
     ((\<exists>x \<in> set db. oid x = k)
      \<and> (\<forall>x \<in> set db. (oid x = k) = (tokenHash x = h))
      \<and> (\<forall>x \<in> set db. oid x = k \<longrightarrow> team x = tm \<and> assignedShard x = sh))"

text \<open>The same without the shard: what every registry operation keeps of a record.\<close>

definition holds_identity :: "ObjectId \<Rightarrow> string \<Rightarrow> ObjectId \<Rightarrow> collection \<Rightarrow> bool" where
  "holds_identity k h tm db =
     ((\<exists>x \<in> set db. oid x = k)
      \<and> (\<forall>x \<in> set db. (oid x = k) = (tokenHash x = h))
      \<and> (\<forall>x \<in> set db. oid x = k \<longrightarrow> team x = tm))"

section \<open>Collector-config synthesizer (buildShardCollectorConfig)\<close>

text \<open>The managed connection of \<^verbatim>\<open>models/connection\<close>; the password is selected
  explicitly (\<^verbatim>\<open>select('+password')\<close>), so the model carries it.\<close>

record IConnection =
  c_oid :: ObjectId
  c_team :: ObjectId
  c_name :: "string option"
  c_host :: "string option"
  c_username :: "string option"
  c_password :: "string option"
  c_isManaged :: bool

text \<open>The configuration is the object literal the source builds, as a JSON value.\<close>

datatype json =
    JNull
  | JBool bool
  | JString string
  | JArray "json list"
  | JObject "(string \<times> json) list"

fun jfield :: "string \<Rightarrow> json \<Rightarrow> json option" where
  "jfield k (JObject kvs) = map_of kvs k"
| "jfield k _ = None"

fun jkeys :: "json \<Rightarrow> string list" where
  "jkeys (JObject kvs) = map fst kvs"
| "jkeys _ = []"

definition nop_pipeline :: json where
  "nop_pipeline = JObject
     [(''receivers'', JArray [JString ''otlp/hyperdx'']),
      (''processors'', JArray [JString ''batch'']),
      (''exporters'', JArray [JString ''nop''])]"

definition tenant_pipeline :: json where
  "tenant_pipeline = JObject
     [(''receivers'', JArray [JString ''otlp/hyperdx'']),
      (''processors'', JArray [JString ''memory_limiter'', JString ''batch'']),
      (''exporters'', JArray [JString ''clickhouse''])]"

definition config_extensions :: json where
  "config_extensions = JObject [(''health_check'', JObject [(''endpoint'', JString '':13133'')])]"

definition config_receivers :: json where
  "config_receivers = JObject
     [(''nop'', JNull),
      (''otlp/hyperdx'', JObject
         [(''protocols'', JObject
            [(''grpc'', JObject
                [(''endpoint'', JString ''0.0.0.0:4317''), (''include_metadata'', JBool True)]),
             (''http'', JObject
                [(''endpoint'', JString ''0.0.0.0:4318''),
                 (''include_metadata'', JBool True),
                 (''cors'', JObject
                    [(''allowed_origins'', JArray [JString ''*'']),
                     (''allowed_headers'', JArray [JString ''*''])])])])])]"

text \<open>The nop configuration; the source writes the same literal at both of its
  early returns.\<close>

definition nopConfig :: json where
  "nopConfig = JObject
     [(''extensions'', config_extensions),
      (''receivers'', config_receivers),
      (''connectors'', JObject []),
      (''exporters'', JObject [(''nop'', JNull)]),
      (''service'', JObject
         [(''extensions'', JArray [JString ''health_check'']),
          (''pipelines'', JObject
             [(''logs/nop'', nop_pipeline),
              (''traces/nop'', nop_pipeline),
              (''metrics/nop'', nop_pipeline)])])]"

definition tenantConfig :: "string \<Rightarrow> string \<Rightarrow> string \<Rightarrow> json" where
  "tenantConfig database teamUser password = JObject
     [(''extensions'', config_extensions),
      (''receivers'', config_receivers),
      (''connectors'', JObject []),
      (''exporters'', JObject
         [(''nop'', JNull),
          (''clickhouse'', JObject
             [(''endpoint'', JString ''${env:CLICKHOUSE_ENDPOINT}''),
              (''database'', JString database),
              (''username'', JString teamUser),
              (''password'', JString password),
              (''ttl'', JString ''720h''),
              (''timeout'', JString ''5s''),
              (''retry_on_failure'', JObject
                 [(''enabled'', JBool True),
                  (''initial_interval'', JString ''5s''),
                  (''max_interval'', JString ''30s''),
                  (''max_elapsed_time'', JString ''300s'')])])]),
      (''service'', JObject
         [(''extensions'', JArray [JString ''health_check'']),
          (''pipelines'', JObject
             [(''logs'', tenant_pipeline),
              (''traces'', tenant_pipeline),
              (''metrics'', tenant_pipeline)])])]"

text \<open>\<^verbatim>\<open>Array.from(new Set(xs))\<close> keeps the first occurrence of each element, in order;
  \<^verbatim>\<open>.sort()\<close> without a comparator orders strings by their code units.\<close>

definition array_from_set :: "'a list \<Rightarrow> 'a list" where
  "array_from_set xs = rev (remdups (rev xs))"

definition shard_teamIds :: "collection \<Rightarrow> string \<Rightarrow> ObjectId list" where
  "shard_teamIds db shardId =
     sort (array_from_set
       (map team (filter (\<lambda>d. status d = Active \<and> assignedShard d = Some shardId) db)))"

text \<open>\<^verbatim>\<open>const teamId = teamIds[0]\<close>: \<^verbatim>\<open>undefined\<close> when no team is on the shard.\<close>

definition selectedTeamId :: "collection \<Rightarrow> string \<Rightarrow> ObjectId option" where
  "selectedTeamId db shardId =
     (case shard_teamIds db shardId of [] \<Rightarrow> None | teamId # others \<Rightarrow> Some teamId)"

definition buildShardCollectorConfig :: "collection \<Rightarrow> IConnection list \<Rightarrow> string \<Rightarrow> json" where
  "buildShardCollectorConfig db conns shardId =
     (let teamId = selectedTeamId db shardId in
      if \<not> truthy teamId then nopConfig
      else
        (let teamUser = ''tenant_'' @ the teamId;
             database = ''tenant_'' @ the teamId
         in case findOne (\<lambda>c. c_team c = the teamId \<and> c_isManaged c) conns of
              None \<Rightarrow> nopConfig
            | Some conn \<Rightarrow>
                if \<not> truthy (c_password conn) then nopConfig
                else tenantConfig database teamUser (the (c_password conn))))"

text \<open>Reading a configuration: its exporter names, its pipeline names, and the
  signal of a pipeline (a pipeline is named \<^verbatim>\<open>signal\<close> or \<^verbatim>\<open>signal/name\<close>).\<close>

definition exporter_names :: "json \<Rightarrow> string list" where
  "exporter_names cfg = (case jfield ''exporters'' cfg of None \<Rightarrow> [] | Some e \<Rightarrow> jkeys e)"

definition pipeline_names :: "json \<Rightarrow> string list" where
  "pipeline_names cfg =
     (case jfield ''service'' cfg of
        None \<Rightarrow> []
      | Some s \<Rightarrow> (case jfield ''pipelines'' s of None \<Rightarrow> [] | Some p \<Rightarrow> jkeys p))"

definition pipeline_signal :: "string \<Rightarrow> string" where
  "pipeline_signal name = takeWhile (\<lambda>c. c \<noteq> CHR ''/'') name"

definition has_pipeline_for :: "json \<Rightarrow> string \<Rightarrow> bool" where
  "has_pipeline_for cfg signal = list_ex (\<lambda>n. pipeline_signal n = signal) (pipeline_names cfg)"

text \<open>The team has a managed connection whose password can be read.\<close>

definition has_readable_connection :: "IConnection list \<Rightarrow> ObjectId \<Rightarrow> bool" where
  "has_readable_connection conns teamId =
     list_ex (\<lambda>c. c_team c = teamId \<and> c_isManaged c \<and> truthy (c_password c)) conns"

section \<open>OpAMP endpoint (OpampController.handleOpampMessage)\<close>

datatype AnyValue = StringValue string | BoolValue bool | IntValue int | OtherValue

record KeyValue =
  kv_key :: string
  kv_value :: "AnyValue option"

definition stringValue :: "AnyValue \<Rightarrow> string option" where
  "stringValue v = (case v of StringValue s \<Rightarrow> Some s | _ \<Rightarrow> None)"

definition getStringAttr :: "KeyValue list option \<Rightarrow> string \<Rightarrow> string option" where
  "getStringAttr attrs k =
     (case attrs of
        None \<Rightarrow> None
      | Some as \<Rightarrow>
          (case List.find (\<lambda>a. kv_key a = k) as of
             None \<Rightarrow> None
           | Some attr \<Rightarrow> (case kv_value attr of None \<Rightarrow> None | Some v \<Rightarrow> stringValue v)))"

type_synonym bytes = "8 word list"

record AgentDescription =
  identifyingAttributes :: "KeyValue list"

record AgentToServer =
  a2s_instanceUid :: bytes
  a2s_agentDescription :: "AgentDescription option"
  a2s_capabilities :: "64 word"
  a2s_lastRemoteConfigHash :: "bytes option"

record Agent =
  instanceUid :: bytes
  agentDescription :: "AgentDescription option"
  capabilities :: "64 word"
  lastConfigHash :: "bytes option"

type_synonym registry = "bytes \<rightharpoonup> Agent"

text \<open>
  Modelled from the spec: \<^verbatim>\<open>agentService.processAgentStatus\<close> (services/agentService
  is not among the sources). The registry maps \<open>instance_uid\<close> to the last seen
  identifying attributes, capabilities bitfield and last-config hash; \<open>process\<close> merges
  the incoming fields into the stored entry, creating it if absent, and returns the
  merged entry.
\<close>

definition processAgentStatus :: "AgentToServer \<Rightarrow> registry \<Rightarrow> Agent \<times> registry" where
  "processAgentStatus msg reg =
     (let merged =
        (case reg (a2s_instanceUid msg) of
           None \<Rightarrow>
             \<lparr>instanceUid = a2s_instanceUid msg,
              agentDescription = a2s_agentDescription msg,
              capabilities = a2s_capabilities msg,
              lastConfigHash = a2s_lastRemoteConfigHash msg\<rparr>
         | Some stored \<Rightarrow>
             stored
              \<lparr>agentDescription :=
                 (case a2s_agentDescription msg of
                    None \<Rightarrow> agentDescription stored | Some d \<Rightarrow> Some d),
               capabilities := a2s_capabilities msg,
               lastConfigHash :=
                 (case a2s_lastRemoteConfigHash msg of
                    None \<Rightarrow> lastConfigHash stored | Some h \<Rightarrow> Some h)\<rparr>)
      in (merged, reg(a2s_instanceUid msg \<mapsto> merged)))"

text \<open>
  Modelled from the spec: \<^verbatim>\<open>agentService.agentAcceptsRemoteConfig\<close> (not among the
  sources): the agent's capabilities include \<open>AcceptsRemoteConfig\<close>, bit \<open>0x2\<close> of the
  standard OpAMP capability set.
\<close>

definition AcceptsRemoteConfig :: "64 word" where
  "AcceptsRemoteConfig = 2"

definition agentAcceptsRemoteConfig :: "Agent \<Rightarrow> bool" where
  "agentAcceptsRemoteConfig agent = (capabilities agent AND AcceptsRemoteConfig \<noteq> 0)"

record Request =
  contentType :: "string option"
  body :: bytes

record RemoteConfig =
  rc_config :: json
  rc_contentType :: string

record ServerToAgent =
  s2a_instanceUid :: bytes
  s2a_capabilities :: "64 word"
  s2a_remoteConfig :: "RemoteConfig option"

datatype response_body = Text string | Protobuf ServerToAgent

record Response =
  res_status :: nat
  res_body :: response_body

text \<open>
  The handler. \<^verbatim>\<open>decodeAgentToServer\<close> and \<^verbatim>\<open>serverCapabilities\<close> (utils/protobuf) are
  not among the sources and are parameters: \<open>decode\<close> yields \<open>None\<close> where the decoder
  throws. Everything thrown inside the \<^verbatim>\<open>try\<close> reaches the one \<^verbatim>\<open>catch\<close>, which
  answers 500. The response carries the configuration itself; its serialization
  (\<^verbatim>\<open>JSON.stringify\<close>, \<^verbatim>\<open>createRemoteConfig\<close>, \<^verbatim>\<open>encodeServerToAgent\<close>) is left out.
  The handler reads the token and connection collections and writes only the registry.
\<close>

definition handleOpampMessage ::
  "(bytes \<Rightarrow> AgentToServer option) \<Rightarrow> 64 word \<Rightarrow> collection \<Rightarrow> IConnection list
     \<Rightarrow> Request \<Rightarrow> registry \<Rightarrow> Response \<times> registry" where
  "handleOpampMessage decodeAgentToServer serverCapabilities db conns req reg =
     (if contentType req \<noteq> Some ''application/x-protobuf'' then
        (\<lparr>res_status = 415,
          res_body = Text ''Unsupported Media Type: Content-Type must be application/x-protobuf''\<rparr>,
         reg)
      else
        (case decodeAgentToServer (body req) of
           None \<Rightarrow> (\<lparr>res_status = 500, res_body = Text ''Internal Server Error''\<rparr>, reg)
         | Some agentToServer \<Rightarrow>
             (let (agent, reg') = processAgentStatus agentToServer reg in
              if agentAcceptsRemoteConfig agent then
                (let shardId =
                       getStringAttr (map_option identifyingAttributes (agentDescription agent))
                         ''hdx.shard_id''
                 in if \<not> truthy shardId then
                      (\<lparr>res_status = 500, res_body = Text ''Internal Server Error''\<rparr>, reg')
                    else
                      (\<lparr>res_status = 200,
                        res_body = Protobuf
                          \<lparr>s2a_instanceUid = instanceUid agent,
                           s2a_capabilities = serverCapabilities,
                           s2a_remoteConfig =
                             Some \<lparr>rc_config = buildShardCollectorConfig db conns (the shardId),
                                   rc_contentType = ''application/json''\<rparr>\<rparr>\<rparr>,
                       reg'))
              else
                (\<lparr>res_status = 200,
                  res_body = Protobuf
                    \<lparr>s2a_instanceUid = instanceUid agent,
                     s2a_capabilities = serverCapabilities,
                     s2a_remoteConfig = None\<rparr>\<rparr>,
                 reg'))))"

text \<open>The agent's identifying attributes have no \<^verbatim>\<open>hdx.shard_id\<close> key.\<close>

definition lacks_shard_id :: "Agent \<Rightarrow> bool" where
  "lacks_shard_id agent =
     (case agentDescription agent of
        None \<Rightarrow> True
      | Some d \<Rightarrow> \<not> list_ex (\<lambda>a. kv_key a = ''hdx.shard_id'') (identifyingAttributes d))"

section \<open>Tenant storage provisioner (controllers/clickhouseTenantProvisioning.ts)\<close>

definition quoteIdent :: "string \<Rightarrow> string" where
  "quoteIdent name = ''`'' @ filter (\<lambda>c. c \<noteq> CHR ''`'') name @ ''`''"

definition quoteStr :: "string \<Rightarrow> string" where
  "quoteStr v =
     [CHR 0x27] @ concat (map (\<lambda>c. if c = CHR 0x27 then [CHR 0x5C, CHR 0x27] else [c]) v) @ [CHR 0x27]"

record ch_config =
  CLICKHOUSE_TENANT_PROVISIONING_ENABLED :: bool
  CLICKHOUSE_ADMIN_HOST :: "string option"

text \<open>
  The analytical store is outside the program: it is a function from the statements
  received so far and the next statement to what \<^verbatim>\<open>fetch\<close> yields, a rejection (network
  error, the 10 s timeout) or an HTTP response with its status and body. The state of
  the model is the list of statements sent, in order.
\<close>

datatype fetch_result = FetchRejected | HttpResponse nat string

datatype prov_error = AdminHostNotSet | FetchFailed | AdminQueryFailed nat string

type_synonym clickhouse = "string list \<Rightarrow> string \<Rightarrow> fetch_result"

definition clickhouseAdminQuery ::
  "ch_config \<Rightarrow> clickhouse \<Rightarrow> string \<Rightarrow> string list \<Rightarrow> (prov_error + unit) \<times> string list" where
  "clickhouseAdminQuery cfg srv sql sent =
     (if \<not> truthy (CLICKHOUSE_ADMIN_HOST cfg) then (Inl AdminHostNotSet, sent)
      else
        (case srv sent sql of
           FetchRejected \<Rightarrow> (Inl FetchFailed, sent @ [sql])
         | HttpResponse st txt \<Rightarrow>
             if \<not> (200 \<le> st \<and> st \<le> 299) then (Inl (AdminQueryFailed st txt), sent @ [sql])
             else (Inr (), sent @ [sql])))"

definition getTenantDbName :: "string \<Rightarrow> string" where
  "getTenantDbName teamId = ''tenant_'' @ teamId"

definition getTenantDbUser :: "string \<Rightarrow> string" where
  "getTenantDbUser teamId = ''tenant_'' @ teamId"

text \<open>The column lists of the three \<^verbatim>\<open>CREATE TABLE\<close> templates, from the opening
  parenthesis to the end of the template; \<^verbatim>\<open>hyperdx_sessions\<close> has the text of
  \<^verbatim>\<open>otel_logs\<close>.\<close>

definition logs_table_schema :: string where
  "logs_table_schema =
     ''(\<newline>'' @
     ''  `Timestamp` DateTime64(9) CODEC(Delta(8), ZSTD(1)),\<newline>'' @
     ''  `TimestampTime` DateTime DEFAULT toDateTime(Timestamp),\<newline>'' @
     ''  `TraceId` String CODEC(ZSTD(1)),\<newline>'' @
     ''  `SpanId` String CODEC(ZSTD(1)),\<newline>'' @
     ''  `TraceFlags` UInt8,\<newline>'' @
     ''  `SeverityText` LowCardinality(String) CODEC(ZSTD(1)),\<newline>'' @
     ''  `SeverityNumber` UInt8,\<newline>'' @
     ''  `ServiceName` LowCardinality(String) CODEC(ZSTD(1)),\<newline>'' @
     ''  `Body` String CODEC(ZSTD(1)),\<newline>'' @
     ''  `ResourceSchemaUrl` LowCardinality(String) CODEC(ZSTD(1)),\<newline>'' @
     ''  `ResourceAttributes` Map(LowCardinality(String), String) CODEC(ZSTD(1)),\<newline>'' @
     ''  `ScopeSchemaUrl` LowCardinality(String) CODEC(ZSTD(1)),\<newline>'' @
     ''  `ScopeName` String CODEC(ZSTD(1)),\<newline>'' @
     ''  `ScopeVersion` LowCardinality(String) CODEC(ZSTD(1)),\<newline>'' @
     ''  `ScopeAttributes` Map(LowCardinality(String), String) CODEC(ZSTD(1)),\<newline>'' @
     ''  `LogAttributes` Map(LowCardinality(String), String) CODEC(ZSTD(1)),\<newline>'' @
     ''  INDEX idx_trace_id TraceId TYPE bloom_filter(0.001) GRANULARITY 1,\<newline>'' @
     ''  INDEX idx_res_attr_key mapKeys(ResourceAttributes) TYPE bloom_filter(0.01) GRANULARITY 1,\<newline>'' @
     ''  INDEX idx_res_attr_value mapValues(ResourceAttributes) TYPE bloom_filter(0.01) GRANULARITY 1,\<newline>'' @
     ''  INDEX idx_scope_attr_key mapKeys(ScopeAttributes) TYPE bloom_filter(0.01) GRANULARITY 1,\<newline>'' @
     ''  INDEX idx_scope_attr_value mapValues(ScopeAttributes) TYPE bloom_filter(0.01) GRANULARITY 1,\<newline>'' @
     ''  INDEX idx_log_attr_key mapKeys(LogAttributes) TYPE bloom_filter(0.01) GRANULARITY 1,\<newline>'' @
     ''  INDEX idx_log_attr_value mapValues(LogAttributes) TYPE bloom_filter(0.01) GRANULARITY 1\<newline>'' @
     '')\<newline>'' @
     ''ENGINE = MergeTree\<newline>'' @
     ''PARTITION BY toDate(TimestampTime)\<newline>'' @
     ''PRIMARY KEY (ServiceName, TimestampTime)\<newline>'' @
     ''ORDER BY (ServiceName, TimestampTime, Timestamp)\<newline>'' @
     ''TTL TimestampTime + toIntervalDay(30)\<newline>'' @
     ''SETTINGS index_granularity = 8192, ttl_only_drop_parts = 1;\<newline>'' @
     ''  ''"

definition traces_table_schema :: string where
  "traces_table_schema =
     ''(\<newline>'' @
     ''  `Timestamp` DateTime64(9) CODEC(Delta(8), ZSTD(1)),\<newline>'' @
     ''  `TraceId` String CODEC(ZSTD(1)),\<newline>'' @
     ''  `SpanId` String CODEC(ZSTD(1)),\<newline>'' @
     ''  `ParentSpanId` String CODEC(ZSTD(1)),\<newline>'' @
     ''  `TraceState` String CODEC(ZSTD(1)),\<newline>'' @
     ''  `SpanName` LowCardinality(String) CODEC(ZSTD(1)),\<newline>'' @
     ''  `SpanKind` LowCardinality(String) CODEC(ZSTD(1)),\<newline>'' @
     ''  `ServiceName` LowCardinality(String) CODEC(ZSTD(1)),\<newline>'' @
     ''  `ResourceAttributes` Map(LowCardinality(String), String) CODEC(ZSTD(1)),\<newline>'' @
     ''  `ScopeName` String CODEC(ZSTD(1)),\<newline>'' @
     ''  `ScopeVersion` String CODEC(ZSTD(1)),\<newline>'' @
     ''  `SpanAttributes` Map(LowCardinality(String), String) CODEC(ZSTD(1)),\<newline>'' @
     ''  `Duration` UInt64 CODEC(ZSTD(1)),\<newline>'' @
     ''  `StatusCode` LowCardinality(String) CODEC(ZSTD(1)),\<newline>'' @
     ''  `StatusMessage` String CODEC(ZSTD(1)),\<newline>'' @
     ''  `Events.Timestamp` Array(DateTime64(9)) CODEC(ZSTD(1)),\<newline>'' @
     ''  `Events.Name` Array(LowCardinality(String)) CODEC(ZSTD(1)),\<newline>'' @
     ''  `Events.Attributes` Array(Map(LowCardinality(String), String)) CODEC(ZSTD(1)),\<newline>'' @
     ''  `Links.TraceId` Array(String) CODEC(ZSTD(1)),\<newline>'' @
     ''  `Links.SpanId` Array(String) CODEC(ZSTD(1)),\<newline>'' @
     ''  `Links.TraceState` Array(String) CODEC(ZSTD(1)),\<newline>'' @
     ''  `Links.Attributes` Array(Map(LowCardinality(String), String)) CODEC(ZSTD(1)),\<newline>'' @
     ''  INDEX idx_trace_id TraceId TYPE bloom_filter(0.001) GRANULARITY 1,\<newline>'' @
     ''  INDEX idx_res_attr_key mapKeys(ResourceAttributes) TYPE bloom_filter(0.01) GRANULARITY 1,\<newline>'' @
     ''  INDEX idx_res_attr_value mapValues(ResourceAttributes) TYPE bloom_filter(0.01) GRANULARITY 1,\<newline>'' @
     ''  INDEX idx_span_attr_key mapKeys(SpanAttributes) TYPE bloom_filter(0.01) GRANULARITY 1,\<newline>'' @
     ''  INDEX idx_span_attr_value mapValues(SpanAttributes) TYPE bloom_filter(0.01) GRANULARITY 1,\<newline>'' @
     ''  INDEX idx_duration Duration TYPE minmax GRANULARITY 1\<newline>'' @
     '')\<newline>'' @
     ''ENGINE = MergeTree\<newline>'' @
     ''PARTITION BY toDate(Timestamp)\<newline>'' @
     ''ORDER BY (ServiceName, SpanName, toDateTime(Timestamp))\<newline>'' @
     ''TTL toDate(Timestamp) + toIntervalDay(30)\<newline>'' @
     ''SETTINGS index_granularity = 8192, ttl_only_drop_parts = 1;\<newline>'' @
     ''  ''"

definition create_database_stmt :: "string \<Rightarrow> string" where
  "create_database_stmt database = ''CREATE DATABASE IF NOT EXISTS '' @ quoteIdent database"

definition create_user_stmt :: "string \<Rightarrow> string \<Rightarrow> string" where
  "create_user_stmt username password =
     ''CREATE USER IF NOT EXISTS '' @ quoteIdent username @
     '' IDENTIFIED WITH plaintext_password BY '' @ quoteStr password"

definition grant_stmt :: "string \<Rightarrow> string \<Rightarrow> string" where
  "grant_stmt database username =
     ''GRANT SELECT, INSERT, ALTER, CREATE, DROP, TRUNCATE ON '' @ quoteIdent database @
     ''.* TO '' @ quoteIdent username"

definition create_table_header :: "string \<Rightarrow> string \<Rightarrow> string" where
  "create_table_header database table =
     ''\<newline>CREATE TABLE IF NOT EXISTS '' @ quoteIdent database @ ''.'' @ table @ ''\<newline>''"

definition create_otel_logs_stmt :: "string \<Rightarrow> string" where
  "create_otel_logs_stmt database = create_table_header database ''otel_logs'' @ logs_table_schema"

definition create_otel_traces_stmt :: "string \<Rightarrow> string" where
  "create_otel_traces_stmt database =
     create_table_header database ''otel_traces'' @ traces_table_schema"

definition create_hyperdx_sessions_stmt :: "string \<Rightarrow> string" where
  "create_hyperdx_sessions_stmt database =
     create_table_header database ''hyperdx_sessions'' @ logs_table_schema"

record ProvisionedTenantClickhouse =
  pt_database :: string
  pt_username :: string
  pt_password :: string

text \<open>\<^verbatim>\<open>provisionTenantClickhouse\<close>: the six awaited admin queries in order, the first
  failure ending the call; \<open>password\<close> is the draw of \<^verbatim>\<open>crypto.randomBytes(24)\<close> in hex.\<close>

definition provisionTenantClickhouse ::
  "ch_config \<Rightarrow> clickhouse \<Rightarrow> string \<Rightarrow> string \<Rightarrow> string list
     \<Rightarrow> (prov_error + ProvisionedTenantClickhouse option) \<times> string list" where
  "provisionTenantClickhouse cfg srv password teamId sent =
     (if \<not> CLICKHOUSE_TENANT_PROVISIONING_ENABLED cfg then (Inr None, sent)
      else
        (let database = getTenantDbName teamId;
             username = getTenantDbUser teamId
         in case clickhouseAdminQuery cfg srv (create_database_stmt database) sent of
              (Inl e, s1) \<Rightarrow> (Inl e, s1)
            | (Inr u1, s1) \<Rightarrow>
          (case clickhouseAdminQuery cfg srv (create_user_stmt username password) s1 of
              (Inl e, s2) \<Rightarrow> (Inl e, s2)
            | (Inr u2, s2) \<Rightarrow>
          (case clickhouseAdminQuery cfg srv (grant_stmt database username) s2 of
              (Inl e, s3) \<Rightarrow> (Inl e, s3)
            | (Inr u3, s3) \<Rightarrow>
          (case clickhouseAdminQuery cfg srv (create_otel_logs_stmt database) s3 of
              (Inl e, s4) \<Rightarrow> (Inl e, s4)
            | (Inr u4, s4) \<Rightarrow>
          (case clickhouseAdminQuery cfg srv (create_otel_traces_stmt database) s4 of
              (Inl e, s5) \<Rightarrow> (Inl e, s5)
            | (Inr u5, s5) \<Rightarrow>
          (case clickhouseAdminQuery cfg srv (create_hyperdx_sessions_stmt database) s5 of
              (Inl e, s6) \<Rightarrow> (Inl e, s6)
            | (Inr u6, s6) \<Rightarrow>
                (Inr (Some \<lparr>pt_database = database, pt_username = username,
                             pt_password = password\<rparr>), s6))))))))"

text \<open>A statement is the idempotent creation of a table when it starts with the
  \<^verbatim>\<open>CREATE TABLE IF NOT EXISTS\<close> line naming that (quoted) database and table.\<close>

definition creates_table :: "string \<Rightarrow> string \<Rightarrow> string \<Rightarrow> bool" where
  "creates_table database table stmt = prefix (create_table_header database table) stmt"

definition created_tables_among :: "string \<Rightarrow> string list \<Rightarrow> string list \<Rightarrow> string list" where
  "created_tables_among database tables stmts =
     filter (\<lambda>t. list_ex (creates_table database t) stmts) tables"

definition canonical_tables :: "string list" where
  "canonical_tables =
     [''otel_logs'', ''otel_traces'', ''otel_metrics_gauge'', ''otel_metrics_sum'',
      ''otel_metrics_histogram'', ''hyperdx_sessions'']"

text \<open>The store accepts every statement: each request is answered, with a 2xx status.\<close>

definition store_accepts :: "clickhouse \<Rightarrow> bool" where
  "store_accepts srv =
     (\<forall>sent sql. case srv sent sql of
                   FetchRejected \<Rightarrow> False
                 | HttpResponse st txt \<Rightarrow> 200 \<le> st \<and> st \<le> 299)"

text \<open>The statements of a full run, in the order in which they are sent.\<close>

definition provision_statements :: "string \<Rightarrow> string \<Rightarrow> string \<Rightarrow> string list" where
  "provision_statements database username password =
     [create_database_stmt database, create_user_stmt username password,
      grant_stmt database username, create_otel_logs_stmt database,
      create_otel_traces_stmt database, create_hyperdx_sessions_stmt database]"

section \<open>Concrete states used in the examples\<close>

definition sys0 :: sys where
  "sys0 = \<lparr>sha256hex = (\<lambda>s. ''sha:'' @ s), INGESTION_SHARD_COUNT = 2\<rparr>"

definition g1 :: gen where
  "g1 = \<lparr>randomBase64url = ''AAAA'', newObjectId = ''id9'', now = 9\<rparr>"

definition tokA :: IIngestionToken where
  "tokA = \<lparr>oid = ''id1'', team = ''teamA'', tokenHash = ''sha:hdx_ingest_aaaa'',
     tokenPrefix = ''hdx_ingest_a'', status = Active, assignedShard = Some ''shard-0'',
     description = None, lastUsedAt = None, revokedAt = None, createdAt = Some 1,
     updatedAt = Some 1\<rparr>"

definition tokB :: IIngestionToken where
  "tokB = \<lparr>oid = ''id2'', team = ''teamB'', tokenHash = ''sha:hdx_ingest_bbbb'',
     tokenPrefix = ''hdx_ingest_b'', status = Active, assignedShard = Some ''shard-1'',
     description = None, lastUsedAt = None, revokedAt = None, createdAt = Some 2,
     updatedAt = Some 2\<rparr>"

definition minted :: "ObjectId \<Rightarrow> string \<Rightarrow> IIngestionToken" where
  "minted teamId shard = \<lparr>oid = ''id9'', team = teamId, tokenHash = ''sha:hdx_ingest_AAAA'',
     tokenPrefix = ''hdx_ingest_A'', status = Active, assignedShard = Some shard,
     description = None, lastUsedAt = None, revokedAt = None, createdAt = Some 9,
     updatedAt = Some 9\<rparr>"

definition tokR :: IIngestionToken where
  "tokR = \<lparr>oid = ''id3'', team = ''teamA'', tokenHash = ''sha:hdx_ingest_cccc'',
     tokenPrefix = ''hdx_ingest_c'', status = Revoked, assignedShard = Some ''shard-0'',
     description = None, lastUsedAt = None, revokedAt = Some 3, createdAt = Some 1,
     updatedAt = Some 3\<rparr>"

definition g2 :: gen where
  "g2 = \<lparr>randomBase64url = ''BBBB'', newObjectId = ''id10'', now = 12\<rparr>"

definition tokB_on0 :: IIngestionToken where
  "tokB_on0 = \<lparr>oid = ''id4'', team = ''teamB'', tokenHash = ''sha:hdx_ingest_dddd'',
     tokenPrefix = ''hdx_ingest_d'', status = Active, assignedShard = Some ''shard-0'',
     description = None, lastUsedAt = None, revokedAt = None, createdAt = Some 0,
     updatedAt = Some 0\<rparr>"

definition connA :: IConnection where
  "connA = \<lparr>c_oid = ''c1'', c_team = ''teamA'', c_name = Some ''Tenant ClickHouse'',
     c_host = Some ''http://ch:8123'', c_username = Some ''tenant_teamA'', c_password = None,
     c_isManaged = True\<rparr>"

definition connB :: IConnection where
  "connB = \<lparr>c_oid = ''c2'', c_team = ''teamB'', c_name = Some ''Tenant ClickHouse'',
     c_host = Some ''http://ch:8123'', c_username = Some ''tenant_teamB'',
     c_password = Some ''s3cret'', c_isManaged = True\<rparr>"

definition paramsA :: create_params where
  "paramsA = \<lparr>p_teamId = ''teamA'', p_description = None, p_assignedShard = None\<rparr>"

definition paramsB :: create_params where
  "paramsB = \<lparr>p_teamId = ''teamB'', p_description = None, p_assignedShard = None\<rparr>"

definition msg0 :: AgentToServer where
  "msg0 = \<lparr>a2s_instanceUid = [1, 2, 3],
     a2s_agentDescription = Some \<lparr>identifyingAttributes =
        [\<lparr>kv_key = ''service.name'', kv_value = Some (StringValue ''otelcol'')\<rparr>]\<rparr>,
     a2s_capabilities = 2, a2s_lastRemoteConfigHash = None\<rparr>"

definition decode_msg0 :: "bytes \<Rightarrow> AgentToServer option" where
  "decode_msg0 b = Some msg0"

definition decode_fail :: "bytes \<Rightarrow> AgentToServer option" where
  "decode_fail b = None"

definition reg0 :: registry where
  "reg0 = Map.empty"

definition agent0 :: Agent where
  "agent0 = \<lparr>instanceUid = [1, 2, 3], agentDescription = a2s_agentDescription msg0,
     capabilities = 2, lastConfigHash = None\<rparr>"

definition req0 :: Request where
  "req0 = \<lparr>contentType = Some ''application/x-protobuf'', body = [10, 3, 1, 2, 3]\<rparr>"

definition req_json :: Request where
  "req_json = \<lparr>contentType = Some ''application/json'', body = [10, 3, 1, 2, 3]\<rparr>"

definition ch_cfg0 :: ch_config where
  "ch_cfg0 = \<lparr>CLICKHOUSE_TENANT_PROVISIONING_ENABLED = True,
     CLICKHOUSE_ADMIN_HOST = Some ''http://clickhouse:8123''\<rparr>"

definition srv_ok :: clickhouse where
  "srv_ok sent sql = HttpResponse 200 ''''"

definition pw0 :: string where
  "pw0 = ''00112233445566778899aabbccddeeff0011223344556677''"

section \<open>Properties of the shard allocator\<close>

lemma show_nat_nonempty: "show_nat n \<noteq> []"
  by (subst show_nat.simps) simp

lemma shardName_nonempty: "shardName i \<noteq> []"
  by (simp add: shardName_def)

lemma build_teamsPerShard_lookup:
  "s \<noteq> [] \<Longrightarrow>
   (case build_teamsPerShard ts m s of None \<Rightarrow> True | Some S \<Rightarrow> S = {}) =
   ((case m s of None \<Rightarrow> True | Some S \<Rightarrow> S = {}) \<and> (\<forall>t \<in> set ts. assignedShard t \<noteq> Some s))"
proof (induction ts arbitrary: m)
  case Nil
  then show ?case by simp
next
  case (Cons t ts)
  show ?case
  proof (cases "truthy (assignedShard t)")
    case False
    with Cons.prems have "assignedShard t \<noteq> Some s"
      by (auto simp: truthy_def)
    with False Cons show ?thesis by simp
  next
    case True
    then obtain s' where s': "assignedShard t = Some s'"
      by (auto simp: truthy_def split: option.splits)
    show ?thesis
      using True s' Cons.IH [OF Cons.prems] by (auto split: option.splits)
  qed
qed

lemma shard_scan_None:
  "(\<And>j. i \<le> j \<Longrightarrow> int j < N \<Longrightarrow> \<not> (case tps (shardName j) of None \<Rightarrow> True | Some S \<Rightarrow> S = {}))
   \<Longrightarrow> shard_scan tps N i = None"
proof (induction tps N i rule: shard_scan.induct)
  case (1 tps N i)
  show ?case
  proof (cases "int i < N")
    case False
    then show ?thesis by (subst shard_scan.simps) simp
  next
    case True
    from "1.prems" [of i] True obtain S where S: "tps (shardName i) = Some S" "S \<noteq> {}"
      by (auto split: option.splits)
    have "shard_scan tps N (Suc i) = None"
      using "1.IH" [OF True S] "1.prems" by simp
    with True S show ?thesis by (subst shard_scan.simps) simp
  qed
qed

lemma shard_scan_first:
  "int k < N \<Longrightarrow> i \<le> k \<Longrightarrow>
   (case tps (shardName k) of None \<Rightarrow> True | Some S \<Rightarrow> S = {}) \<Longrightarrow>
   (\<And>j. i \<le> j \<Longrightarrow> j < k \<Longrightarrow> \<not> (case tps (shardName j) of None \<Rightarrow> True | Some S \<Rightarrow> S = {}))
   \<Longrightarrow> shard_scan tps N i = Some (shardName k)"
proof (induction tps N i rule: shard_scan.induct)
  case (1 tps N i)
  show ?case
  proof (cases "i = k")
    case True
    with "1.prems"(1,3) show ?thesis
      by (subst shard_scan.simps) (auto split: option.splits)
  next
    case False
    with "1.prems"(2) have lt: "i < k" by simp
    with "1.prems"(1) have iN: "int i < N" by simp
    from "1.prems"(4) [of i] lt obtain S where S: "tps (shardName i) = Some S" "S \<noteq> {}"
      by (auto split: option.splits)
    have "shard_scan tps N (Suc i) = Some (shardName k)"
      using "1.IH" [OF iN S "1.prems"(1) _ "1.prems"(3)] lt "1.prems"(4) by simp
    with iN S show ?thesis by (subst shard_scan.simps) simp
  qed
qed

lemma teamsPerShard_free:
  "(case build_teamsPerShard (filter (\<lambda>t. status t = Active) db) Map.empty (shardName j) of
      None \<Rightarrow> True | Some S \<Rightarrow> S = {}) = (\<not> shard_occupied db (shardName j))"
  by (auto simp: build_teamsPerShard_lookup [OF shardName_nonempty] shard_occupied_def)

text \<open>
  C5. For every shard count \<open>N\<close> and every snapshot of the token collection, the
  allocator (called without an excluded team, as \<^verbatim>\<open>createIngestionToken\<close> does)
  returns \<open>shard-i\<close> for the smallest index \<open>i\<close> in \<open>0..N-1\<close> such that no team has an
  active token assigned to \<open>shard-i\<close>; if every one of \<open>shard-0 .. shard-(N-1)\<close> is
  occupied it returns no shard (\<^verbatim>\<open>null\<close>), which the caller turns into the
  shards-exhausted error.
\<close>

theorem findNextAvailableShard_lowest_free:
  "findNextAvailableShard N None db =
     (if \<exists>i. int i < N \<and> \<not> shard_occupied db (shardName i)
      then Some (shardName (LEAST i. int i < N \<and> \<not> shard_occupied db (shardName i)))
      else None)"
proof (cases "\<exists>i. int i < N \<and> \<not> shard_occupied db (shardName i)")
  case False
  then have "shard_scan (build_teamsPerShard (filter (\<lambda>t. status t = Active) db) Map.empty) N 0 = None"
    by (intro shard_scan_None) (simp add: teamsPerShard_free)
  with False show ?thesis
    by (simp add: findNextAvailableShard_def truthy_def)
next
  case True
  define k where "k = (LEAST i. int i < N \<and> \<not> shard_occupied db (shardName i))"
  from True have k: "int k < N \<and> \<not> shard_occupied db (shardName k)"
    unfolding k_def by (rule LeastI_ex)
  have below: "\<And>j. j < k \<Longrightarrow> \<not> (int j < N \<and> \<not> shard_occupied db (shardName j))"
    unfolding k_def by (rule not_less_Least)
  have "shard_scan (build_teamsPerShard (filter (\<lambda>t. status t = Active) db) Map.empty) N 0
          = Some (shardName k)"
  proof (rule shard_scan_first)
    show "int k < N" using k by simp
    show "0 \<le> k" by simp
    show "case build_teamsPerShard (filter (\<lambda>t. status t = Active) db) Map.empty (shardName k) of
            None \<Rightarrow> True | Some S \<Rightarrow> S = {}"
      using k by (simp add: teamsPerShard_free)
  next
    fix j assume "0 \<le> j" "j < k"
    with below [of j] k have "shard_occupied db (shardName j)" by auto
    then show "\<not> (case build_teamsPerShard (filter (\<lambda>t. status t = Active) db) Map.empty (shardName j) of
            None \<Rightarrow> True | Some S \<Rightarrow> S = {})"
      by (simp add: teamsPerShard_free)
  qed
  with True show ?thesis
    by (simp add: findNextAvailableShard_def truthy_def k_def)
qed

lemma shardName_0: "shardName 0 = ''shard-0''"
  by code_simp

lemma shardName_1: "shardName (Suc 0) = ''shard-1''"
  by code_simp

theorem findNextAvailableShard_lowest_free_witness:
  "shard_occupied [tokA] ''shard-0'' \<and> \<not> shard_occupied [tokA] ''shard-1''
   \<and> findNextAvailableShard 2 None [tokA] = Some ''shard-1''
   \<and> findNextAvailableShard 1 None [tokA] = None"
proof -
  have occ0: "shard_occupied [tokA] (shardName 0)"
    by (simp add: shard_occupied_def tokA_def shardName_0)
  have free1: "\<not> shard_occupied [tokA] (shardName (Suc 0))"
    by (simp add: shard_occupied_def tokA_def shardName_1)
  have least: "(LEAST i. int i < 2 \<and> \<not> shard_occupied [tokA] (shardName i)) = Suc 0"
  proof (rule Least_equality)
    show "int (Suc 0) < 2 \<and> \<not> shard_occupied [tokA] (shardName (Suc 0))"
      using free1 by simp
  next
    fix y assume "int y < 2 \<and> \<not> shard_occupied [tokA] (shardName y)"
    with occ0 show "Suc 0 \<le> y" by (cases y) auto
  qed
  have ex: "\<exists>i. int i < 2 \<and> \<not> shard_occupied [tokA] (shardName i)"
    using free1 by (intro exI [of _ "Suc 0"]) simp
  have none: "\<not> (\<exists>i. int i < 1 \<and> \<not> shard_occupied [tokA] (shardName i))"
    using occ0 by auto
  show ?thesis
    using findNextAvailableShard_lowest_free [of 2 "[tokA]"]
          findNextAvailableShard_lowest_free [of 1 "[tokA]"]
          ex least none occ0 free1 shardName_0 shardName_1
    by simp
qed

lemma shard_scan_nonempty: "shard_scan tps N i = Some s \<Longrightarrow> s \<noteq> []"
proof (induction tps N i rule: shard_scan.induct)
  case (1 tps N i)
  from "1.prems" show ?case
    by (subst (asm) shard_scan.simps)
       (auto simp: shardName_nonempty split: if_splits option.splits dest: "1.IH")
qed

lemma findNextAvailableShard_truthy:
  "truthy (findNextAvailableShard N ex db) = (findNextAvailableShard N ex db \<noteq> None)"
  by (auto simp: truthy_def findNextAvailableShard_def Let_def
           split: option.splits dest: shard_scan_nonempty)

section \<open>Properties of the token registry\<close>

subsection \<open>findOneAndUpdate\<close>

lemma findOneAndUpdate_fst:
  "fst (findOneAndUpdate P f xs) = map_option f (List.find P xs)"
  by (induction xs) auto

lemma findOneAndUpdate_no_match:
  "\<forall>x \<in> set xs. \<not> P x \<Longrightarrow> findOneAndUpdate P f xs = (None, xs)"
  by (induction xs) auto

lemma findOneAndUpdate_first_match:
  "\<forall>x \<in> set pre. \<not> P x \<Longrightarrow> P d \<Longrightarrow>
   findOneAndUpdate P f (pre @ d # post) = (Some (f d), pre @ f d # post)"
  by (induction pre) auto

lemma findOneAndUpdate_set:
  "x \<in> set (snd (findOneAndUpdate P f xs)) \<Longrightarrow> x \<in> set xs \<or> (\<exists>y \<in> set xs. P y \<and> x = f y)"
  by (induction xs) (auto split: if_splits)

lemma findOneAndUpdate_keeps:
  "y \<in> set xs \<Longrightarrow>
   y \<in> set (snd (findOneAndUpdate P f xs)) \<or> (P y \<and> f y \<in> set (snd (findOneAndUpdate P f xs)))"
  by (induction xs) (auto split: if_splits)

lemma find_split:
  "List.find P xs = Some d \<Longrightarrow> \<exists>pre post. xs = pre @ d # post \<and> (\<forall>x \<in> set pre. \<not> P x) \<and> P d"
proof (induction xs)
  case Nil
  then show ?case by simp
next
  case (Cons a xs)
  show ?case
  proof (cases "P a")
    case True
    with Cons.prems have "a = d" by simp
    with True show ?thesis by (intro exI [of _ "[]"] exI [of _ xs]) simp
  next
    case False
    with Cons obtain pre post where "xs = pre @ d # post" "\<forall>x \<in> set pre. \<not> P x" "P d"
      by auto
    with False show ?thesis by (intro exI [of _ "a # pre"] exI [of _ post]) simp
  qed
qed

subsection \<open>revoke\<close>

text \<open>
  C10. Revoking does not look at the current status. For every token that exists under
  the given team, whether active or already revoked, \<^verbatim>\<open>revokeIngestionToken\<close> returns
  the updated record, now stored: a record of that id and team with status \<open>revoked\<close>
  and \<open>revoked_at\<close> overwritten by the current time; the HTTP DELETE answers 200. Only when no token with that id exists
  under the team does it return \<^verbatim>\<open>null\<close>, leaving the collection as it was, and the
  DELETE answers 404.
\<close>

theorem revoke_any_status:
  "(if token_of_team teamId tokenId db
    then (\<exists>d u. d \<in> set db \<and> oid d = tokenId \<and> team d = teamId
              \<and> u = d\<lparr>status := Revoked, revokedAt := Some t, updatedAt := Some t\<rparr>
              \<and> fst (revokeIngestionToken t teamId tokenId db) = Some u
              \<and> u \<in> set (snd (revokeIngestionToken t teamId tokenId db))
              \<and> status u = Revoked \<and> revokedAt u = Some t)
         \<and> fst (delete_route t teamId tokenId db) = 200
    else revokeIngestionToken t teamId tokenId db = (None, db)
         \<and> delete_route t teamId tokenId db = (404, db))"
proof (cases "token_of_team teamId tokenId db")
  case False
  then have "\<forall>d \<in> set db. \<not> (oid d = tokenId \<and> team d = teamId)"
    by (simp add: token_of_team_def list_ex_iff)
  then have "revokeIngestionToken t teamId tokenId db = (None, db)"
    unfolding revokeIngestionToken_def by (rule findOneAndUpdate_no_match)
  with False show ?thesis by (simp add: delete_route_def)
next
  case True
  then obtain d where "List.find (\<lambda>d. oid d = tokenId \<and> team d = teamId) db = Some d"
    by (cases "List.find (\<lambda>d. oid d = tokenId \<and> team d = teamId) db")
       (auto simp: token_of_team_def find_None_iff list_ex_iff)
  then obtain pre post where sp: "db = pre @ d # post"
      "\<forall>x \<in> set pre. \<not> (oid x = tokenId \<and> team x = teamId)" "oid d = tokenId \<and> team d = teamId"
    using find_split [of "\<lambda>d. oid d = tokenId \<and> team d = teamId" db d] by blast
  have rv: "revokeIngestionToken t teamId tokenId db =
          (Some (d\<lparr>status := Revoked, revokedAt := Some t, updatedAt := Some t\<rparr>),
           pre @ d\<lparr>status := Revoked, revokedAt := Some t, updatedAt := Some t\<rparr> # post)"
    unfolding revokeIngestionToken_def sp(1)
    using sp(2,3) by (rule findOneAndUpdate_first_match)
  moreover have "d \<in> set db" using sp(1) by simp
  ultimately have "\<exists>d u. d \<in> set db \<and> oid d = tokenId \<and> team d = teamId
              \<and> u = d\<lparr>status := Revoked, revokedAt := Some t, updatedAt := Some t\<rparr>
              \<and> fst (revokeIngestionToken t teamId tokenId db) = Some u
              \<and> u \<in> set (snd (revokeIngestionToken t teamId tokenId db))
              \<and> status u = Revoked \<and> revokedAt u = Some t"
    using sp(3)
    by - (rule exI [of _ d],
          rule exI [of _ "d\<lparr>status := Revoked, revokedAt := Some t, updatedAt := Some t\<rparr>"],
          simp)
  moreover have "fst (delete_route t teamId tokenId db) = 200"
    using rv by (simp add: delete_route_def)
  ultimately show ?thesis using True by simp
qed

theorem revoke_any_status_witness:
  "token_of_team ''teamA'' ''id3'' [tokR] \<and> \<not> token_of_team ''teamB'' ''id3'' [tokR]
   \<and> status tokR = Revoked \<and> revokedAt tokR = Some 3
   \<and> revokeIngestionToken 9 ''teamA'' ''id3'' [tokR]
       = (Some (tokR\<lparr>revokedAt := Some 9, updatedAt := Some 9\<rparr>),
          [tokR\<lparr>revokedAt := Some 9, updatedAt := Some 9\<rparr>])
   \<and> fst (delete_route 9 ''teamA'' ''id3'' [tokR]) = 200
   \<and> delete_route 9 ''teamB'' ''id3'' [tokR] = (404, [tokR])"
proof -
  have h: "token_of_team ''teamA'' ''id3'' [tokR]"
    by (simp add: token_of_team_def tokR_def)
  have n: "\<not> token_of_team ''teamB'' ''id3'' [tokR]"
    by (simp add: token_of_team_def tokR_def)
  have s: "status tokR = Revoked \<and> revokedAt tokR = Some 3"
    by (simp add: tokR_def)
  have e: "revokeIngestionToken 9 ''teamA'' ''id3'' [tokR]
       = (Some (tokR\<lparr>revokedAt := Some 9, updatedAt := Some 9\<rparr>),
          [tokR\<lparr>revokedAt := Some 9, updatedAt := Some 9\<rparr>])"
    by (simp add: revokeIngestionToken_def tokR_def)
  have a: "fst (delete_route 9 ''teamA'' ''id3'' [tokR]) = 200"
    using revoke_any_status [where teamId = "''teamA''" and tokenId = "''id3''"
                               and db = "[tokR]" and t = 9] h
    by simp
  have b: "delete_route 9 ''teamB'' ''id3'' [tokR] = (404, [tokR])"
    using revoke_any_status [where teamId = "''teamB''" and tokenId = "''id3''"
                               and db = "[tokR]" and t = 9] n
    by simp
  from h n s e a b show ?thesis by (intro conjI) simp_all
qed

subsection \<open>create\<close>

lemma select_shard_inherit:
  assumes "findOne (\<lambda>d. team d = p_teamId params \<and> status d = Active) db = Some e"
      and "truthy (assignedShard e)" and "\<not> truthy (p_assignedShard params)"
  shows "select_shard cfg params db = Inr (the (assignedShard e))"
  using assms by (simp add: select_shard_def)

lemma select_shard_allocate:
  assumes "findOne (\<lambda>d. team d = p_teamId params \<and> status d = Active) db = None"
      and "\<not> truthy (p_assignedShard params)"
  shows "select_shard cfg params db =
           (case findNextAvailableShard (INGESTION_SHARD_COUNT cfg) None db of
              None \<Rightarrow> Inl NoAvailableShards | Some s \<Rightarrow> Inr s)"
  using assms findNextAvailableShard_truthy [of "INGESTION_SHARD_COUNT cfg" None db]
  by (auto simp: select_shard_def Let_def split: option.splits)

lemma create_cases:
  assumes "select_shard cfg params db = Inr s"
  shows "createIngestionToken cfg g params db = (Inl DuplicateKey, db)
       \<or> (\<exists>doc. createIngestionToken cfg g params db = (Inr (generateIngestionToken g, doc), db @ [doc])
              \<and> assignedShard doc = Some s \<and> team doc = p_teamId params \<and> status doc = Active
              \<and> oid doc = newObjectId g
              \<and> tokenHash doc = hashIngestionToken cfg (generateIngestionToken g)
              \<and> (\<forall>d \<in> set db. oid d \<noteq> oid doc \<and> tokenHash d \<noteq> tokenHash doc))"
  using assms
  by (auto simp: createIngestionToken_def Let_def insert_token_def list_ex_iff)

lemma create_error:
  assumes "select_shard cfg params db = Inl e"
  shows "createIngestionToken cfg g params db = (Inl e, db)"
  using assms by (simp add: createIngestionToken_def Let_def)

text \<open>
  C1 (the code departs from it). The claim: \<open>rotate(team_id, token_id)\<close> fails with
  \<open>NOT_FOUND\<close> and creates no token when \<open>token_id\<close> does not belong to the team.
  \<^verbatim>\<open>rotateIngestionToken\<close> discards the result of the revoke, so it goes on to create:
  here the only token belongs to team A, team B asks to rotate it, nothing is revoked,
  and team B is handed a new active token, which is stored.
\<close>

theorem rotate_foreign_token_mints:
  "\<not> token_of_team ''teamB'' ''id1'' [tokA]
   \<and> rotateIngestionToken sys0 9 g1 ''teamB'' ''id1'' [tokA] =
       (Inr (''hdx_ingest_AAAA'', minted ''teamB'' ''shard-1''),
        [tokA, minted ''teamB'' ''shard-1''])"
  by code_simp

lemma create_duplicate:
  assumes "select_shard cfg params db = Inr s" and "duplicate_key cfg g db"
  shows "createIngestionToken cfg g params db = (Inl DuplicateKey, db)"
  using assms
  by (simp add: createIngestionToken_def Let_def insert_token_def duplicate_key_def)

lemma create_fresh:
  assumes "select_shard cfg params db = Inr s" and "\<not> duplicate_key cfg g db"
  shows "\<exists>doc. createIngestionToken cfg g params db
                 = (Inr (generateIngestionToken g, doc), db @ [doc])
             \<and> oid doc = newObjectId g \<and> team doc = p_teamId params
             \<and> status doc = Active \<and> assignedShard doc = Some s"
  using assms
  by (simp add: createIngestionToken_def Let_def insert_token_def duplicate_key_def)

text \<open>
  C9. If the rotated token (the record the revoke hits) was the team's only active
  token, the shard of the new token is whatever the allocator returns on the collection
  as it is after the revoke, not a copy of the old token's shard. Rotate ends with the
  shards-exhausted error when the allocator returns nothing. When it returns a shard,
  the insert is refused as a duplicate exactly when the new id or the hash of the new
  token is already stored; otherwise rotate returns the new token and its record, an
  active record of the team on the allocator's shard, stored after all others. The
  example after it is a team on \<open>shard-1\<close> that rotate moves to the free \<open>shard-0\<close>.
\<close>

theorem rotate_only_token_reallocates:
  assumes "findOne (\<lambda>d. oid d = tokenId \<and> team d = teamId) db = Some d0"
      and "filter (\<lambda>d. team d = teamId \<and> status d = Active) db = [d0]"
  shows "let db1 = snd (revokeIngestionToken t teamId tokenId db) in
         (case findNextAvailableShard (INGESTION_SHARD_COUNT cfg) None db1 of
            None \<Rightarrow> rotateIngestionToken cfg t g teamId tokenId db = (Inl NoAvailableShards, db1)
          | Some s \<Rightarrow>
              if duplicate_key cfg g db1
              then rotateIngestionToken cfg t g teamId tokenId db = (Inl DuplicateKey, db1)
              else (\<exists>doc. rotateIngestionToken cfg t g teamId tokenId db
                               = (Inr (generateIngestionToken g, doc), db1 @ [doc])
                           \<and> oid doc = newObjectId g \<and> team doc = teamId
                           \<and> status doc = Active \<and> assignedShard doc = Some s))"
proof -
  let ?P = "\<lambda>d. oid d = tokenId \<and> team d = teamId"
  let ?Q = "\<lambda>d. team d = teamId \<and> status d = Active"
  let ?f = "\<lambda>d. d\<lparr>status := Revoked, revokedAt := Some t, updatedAt := Some t\<rparr>"
  let ?params = "\<lparr>p_teamId = teamId, p_description = None, p_assignedShard = None\<rparr>"
  define db1 where "db1 = snd (revokeIngestionToken t teamId tokenId db)"
  from assms(1) obtain pre post where sp: "db = pre @ d0 # post" "\<forall>x \<in> set pre. \<not> ?P x" "?P d0"
    using find_split [of ?P db d0] by (auto simp: findOne_def)
  have db1: "db1 = pre @ ?f d0 # post"
    unfolding db1_def revokeIngestionToken_def sp(1)
    using findOneAndUpdate_first_match [of pre ?P d0 ?f post] sp(2,3) by simp
  have only: "\<forall>x \<in> set pre \<union> set post. \<not> ?Q x"
  proof -
    have "filter ?Q pre @ filter ?Q (d0 # post) = [d0]"
      using assms(2) unfolding sp(1) by simp
    moreover have "?Q d0"
      using assms(2) filter_eq_ConsD [of ?Q db d0 "[]"] by auto
    ultimately have "filter ?Q pre = []" "filter ?Q post = []"
      by (auto simp: append_eq_Cons_conv)
    then show ?thesis by (auto simp: filter_empty_conv)
  qed
  have "\<forall>x \<in> set db1. \<not> ?Q x"
    using only unfolding db1 by auto
  then have none: "findOne (\<lambda>d. team d = p_teamId ?params \<and> status d = Active) db1 = None"
    by (simp add: findOne_def find_None_iff)
  have sel: "select_shard cfg ?params db1 =
           (case findNextAvailableShard (INGESTION_SHARD_COUNT cfg) None db1 of
              None \<Rightarrow> Inl NoAvailableShards | Some s \<Rightarrow> Inr s)"
    using none by (rule select_shard_allocate) (simp add: truthy_def)
  have rot: "rotateIngestionToken cfg t g teamId tokenId db = createIngestionToken cfg g ?params db1"
    by (simp add: rotateIngestionToken_def db1_def)
  show ?thesis
  proof (cases "findNextAvailableShard (INGESTION_SHARD_COUNT cfg) None db1")
    case None
    with sel have "select_shard cfg ?params db1 = Inl NoAvailableShards" by simp
    from create_error [OF this] None rot show ?thesis
      by (simp add: db1_def [symmetric])
  next
    case (Some s)
    with sel have s: "select_shard cfg ?params db1 = Inr s" by simp
    show ?thesis
    proof (cases "duplicate_key cfg g db1")
      case True
      from create_duplicate [OF s True] Some True rot show ?thesis
        by (simp add: db1_def [symmetric])
    next
      case False
      from create_fresh [OF s False] Some False rot show ?thesis
        by (simp add: db1_def [symmetric])
    qed
  qed
qed

theorem rotate_only_token_reallocates_witness:
  "findOne (\<lambda>d. oid d = ''id2'' \<and> team d = ''teamB'') [tokR, tokB] = Some tokB
   \<and> filter (\<lambda>d. team d = ''teamB'' \<and> status d = Active) [tokR, tokB] = [tokB]
   \<and> assignedShard tokB = Some ''shard-1''
   \<and> findNextAvailableShard 2 None (snd (revokeIngestionToken 9 ''teamB'' ''id2'' [tokR, tokB]))
       = Some ''shard-0''
   \<and> \<not> duplicate_key sys0 g1 (snd (revokeIngestionToken 9 ''teamB'' ''id2'' [tokR, tokB]))
   \<and> (\<exists>doc. rotateIngestionToken sys0 9 g1 ''teamB'' ''id2'' [tokR, tokB]
               = (Inr (''hdx_ingest_AAAA'', doc),
                  snd (revokeIngestionToken 9 ''teamB'' ''id2'' [tokR, tokB]) @ [doc])
         \<and> oid doc = ''id9'' \<and> team doc = ''teamB'' \<and> status doc = Active
         \<and> assignedShard doc = Some ''shard-0'')"
proof -
  have h1: "findOne (\<lambda>d. oid d = ''id2'' \<and> team d = ''teamB'') [tokR, tokB] = Some tokB"
    by (simp add: findOne_def tokB_def tokR_def)
  have h2: "filter (\<lambda>d. team d = ''teamB'' \<and> status d = Active) [tokR, tokB] = [tokB]"
    by (simp add: tokB_def tokR_def)
  have a: "findNextAvailableShard (INGESTION_SHARD_COUNT sys0) None
             (snd (revokeIngestionToken 9 ''teamB'' ''id2'' [tokR, tokB])) = Some ''shard-0''"
    by code_simp
  have nd: "\<not> duplicate_key sys0 g1 (snd (revokeIngestionToken 9 ''teamB'' ''id2'' [tokR, tokB]))"
    by code_simp
  have n: "INGESTION_SHARD_COUNT sys0 = 2" "generateIngestionToken g1 = ''hdx_ingest_AAAA''"
       "newObjectId g1 = ''id9''" "assignedShard tokB = Some ''shard-1''"
    by (simp_all add: sys0_def g1_def generateIngestionToken_def tokB_def)
  from rotate_only_token_reallocates [OF h1 h2, of 9 sys0 g1] a nd n
  have "\<exists>doc. rotateIngestionToken sys0 9 g1 ''teamB'' ''id2'' [tokR, tokB]
               = (Inr (''hdx_ingest_AAAA'', doc),
                  snd (revokeIngestionToken 9 ''teamB'' ''id2'' [tokR, tokB]) @ [doc])
         \<and> oid doc = ''id9'' \<and> team doc = ''teamB'' \<and> status doc = Active
         \<and> assignedShard doc = Some ''shard-0''"
    by (simp add: Let_def)
  with h1 h2 a nd n show ?thesis by simp
qed

lemma team_shares_shard_snoc:
  assumes "team_shares_shard db teamId"
      and "e \<in> set db" and "team e = teamId" and "status e = Active"
      and "assignedShard doc = assignedShard e"
  shows "team_shares_shard (db @ [doc]) teamId"
  unfolding team_shares_shard_def
proof (intro ballI impI)
  fix a b
  assume a: "a \<in> set (db @ [doc])" and b: "b \<in> set (db @ [doc])"
     and ab: "team a = teamId \<and> status a = Active \<and> team b = teamId \<and> status b = Active"
  have old: "\<And>x. x \<in> set db \<Longrightarrow> team x = teamId \<Longrightarrow> status x = Active
                 \<Longrightarrow> assignedShard x = assignedShard e"
    using assms(1,2,3,4) unfolding team_shares_shard_def by blast
  have "assignedShard a = assignedShard e"
    using a ab old [of a] assms(5) by (cases "a = doc") auto
  moreover have "assignedShard b = assignedShard e"
    using b ab old [of b] assms(5) by (cases "b = doc") auto
  ultimately show "assignedShard a = assignedShard b" by simp
qed

text \<open>
  C6. Create-time shard inheritance preserves I4. Let the active tokens of a team all
  carry the same shard (I4) and let one of them carry a shard (one that the code's
  test \<^verbatim>\<open>existingToken?.assignedShard\<close> accepts). Then \<^verbatim>\<open>createIngestionToken\<close> without
  an explicit shard never consults the allocator. The insert is refused as a duplicate,
  the collection unchanged, exactly when the new id or the hash of the new token is
  already stored; otherwise create returns the new token and its record, an active
  record of the team with that same shard, stored after all others. In both cases the
  active tokens of the team still share one shard.
\<close>

theorem create_inherits_team_shard:
  assumes "team_shares_shard db teamId"
      and "e \<in> set db" and "team e = teamId" and "status e = Active"
      and "truthy (assignedShard e)"
      and "p_teamId params = teamId" and "\<not> truthy (p_assignedShard params)"
  shows "(if duplicate_key cfg g db
          then createIngestionToken cfg g params db = (Inl DuplicateKey, db)
          else (\<exists>doc. createIngestionToken cfg g params db
                         = (Inr (generateIngestionToken g, doc), db @ [doc])
                \<and> oid doc = newObjectId g \<and> team doc = teamId \<and> status doc = Active
                \<and> assignedShard doc = assignedShard e))
         \<and> team_shares_shard (snd (createIngestionToken cfg g params db)) teamId"
proof -
  let ?Q = "\<lambda>d. team d = p_teamId params \<and> status d = Active"
  from assms(2,3,4,6) have "findOne ?Q db \<noteq> None"
    by (auto simp: findOne_def find_None_iff)
  then obtain x where x: "findOne ?Q db = Some x" by auto
  then have xin: "x \<in> set db" "team x = teamId" "status x = Active"
    using assms(6) by (auto simp: findOne_def find_Some_iff)
  with assms(1,2,3,4) have same: "assignedShard x = assignedShard e"
    unfolding team_shares_shard_def by blast
  with assms(5) have tx: "truthy (assignedShard x)" by simp
  have sel: "select_shard cfg params db = Inr (the (assignedShard e))"
    using select_shard_inherit [OF x tx assms(7)] same by simp
  from assms(5) have some: "Some (the (assignedShard e)) = assignedShard e"
    by (auto simp: truthy_def split: option.splits)
  show ?thesis
  proof (cases "duplicate_key cfg g db")
    case True
    from create_duplicate [OF sel True] True assms(1) show ?thesis by simp
  next
    case False
    from create_fresh [OF sel False] obtain doc where doc:
        "createIngestionToken cfg g params db = (Inr (generateIngestionToken g, doc), db @ [doc])"
        "oid doc = newObjectId g" "team doc = teamId" "status doc = Active"
        "assignedShard doc = assignedShard e"
      using some assms(6) by auto
    have "team_shares_shard (db @ [doc]) teamId"
      using assms(1,2,3,4) doc(5) by (rule team_shares_shard_snoc)
    with doc False show ?thesis by auto
  qed
qed

theorem create_inherits_team_shard_witness:
  "team_shares_shard [tokB, tokA] ''teamA'' \<and> truthy (assignedShard tokA)
   \<and> \<not> duplicate_key sys0 g1 [tokB, tokA]
   \<and> findNextAvailableShard 2 None [tokB, tokA] = None
   \<and> createIngestionToken sys0 g1 paramsA [tokB, tokA]
       = (Inr (''hdx_ingest_AAAA'', minted ''teamA'' ''shard-0''),
          [tokB, tokA, minted ''teamA'' ''shard-0''])
   \<and> team_shares_shard [tokB, tokA, minted ''teamA'' ''shard-0''] ''teamA''"
proof -
  have h1: "team_shares_shard [tokB, tokA] ''teamA''"
    by (simp add: team_shares_shard_def tokB_def)
  have h2: "tokA \<in> set [tokB, tokA]" "team tokA = ''teamA''" "status tokA = Active"
       "truthy (assignedShard tokA)"
    by (simp_all add: tokA_def truthy_def)
  have h3: "p_teamId paramsA = ''teamA''" "\<not> truthy (p_assignedShard paramsA)"
    by (simp_all add: paramsA_def truthy_def)
  have nd: "\<not> duplicate_key sys0 g1 [tokB, tokA]"
    by code_simp
  have ev: "createIngestionToken sys0 g1 paramsA [tokB, tokA]
       = (Inr (''hdx_ingest_AAAA'', minted ''teamA'' ''shard-0''),
          [tokB, tokA, minted ''teamA'' ''shard-0''])"
    by code_simp
  have al: "findNextAvailableShard 2 None [tokB, tokA] = None"
    by code_simp
  show ?thesis
    using create_inherits_team_shard [OF h1 h2 h3, of sys0 g1] h1 h2(4) nd ev al
    by simp
qed

subsection \<open>resolve after create\<close>

lemma findOneAndUpdate_holds_record:
  assumes inv: "holds_record k h tm sh db"
      and f: "\<And>y. oid (f y) = oid y \<and> tokenHash (f y) = tokenHash y \<and> team (f y) = team y"
      and sh: "\<And>y. P y \<Longrightarrow> oid y = k \<Longrightarrow> assignedShard (f y) = assignedShard y"
  shows "holds_record k h tm sh (snd (findOneAndUpdate P f db))"
proof -
  let ?db' = "snd (findOneAndUpdate P f db)"
  from inv obtain x where x: "x \<in> set db" "oid x = k"
    unfolding holds_record_def by blast
  from findOneAndUpdate_keeps [OF x(1), of P f] x(2) f [of x]
  have ex: "\<exists>z \<in> set ?db'. oid z = k" by auto
  have all: "(oid z = k) = (tokenHash z = h) \<and> (oid z = k \<longrightarrow> team z = tm \<and> assignedShard z = sh)"
    if "z \<in> set ?db'" for z
  proof -
    from findOneAndUpdate_set [OF that]
    consider "z \<in> set db" | y where "y \<in> set db" "P y" "z = f y" by blast
    then show ?thesis
    proof cases
      case 1
      with inv show ?thesis unfolding holds_record_def by blast
    next
      case 2
      from inv 2(1) have "(oid y = k) = (tokenHash y = h)"
          "oid y = k \<longrightarrow> team y = tm \<and> assignedShard y = sh"
        unfolding holds_record_def by blast+
      with 2(2,3) f [of y] sh [of y] show ?thesis by auto
    qed
  qed
  from ex all show ?thesis unfolding holds_record_def by blast
qed

lemma create_holds_record:
  assumes inv: "holds_record k h tm sh db"
  shows "holds_record k h tm sh (snd (createIngestionToken cfg g params db))"
proof (cases "select_shard cfg params db")
  case (Inl e)
  from create_error [OF this] inv show ?thesis by simp
next
  case (Inr s)
  from create_cases [OF this, of g]
  show ?thesis
  proof
    assume "createIngestionToken cfg g params db = (Inl DuplicateKey, db)"
    with inv show ?thesis by simp
  next
    assume "\<exists>doc. createIngestionToken cfg g params db
                = (Inr (generateIngestionToken g, doc), db @ [doc])
             \<and> assignedShard doc = Some s \<and> team doc = p_teamId params
             \<and> status doc = Active \<and> oid doc = newObjectId g
             \<and> tokenHash doc = hashIngestionToken cfg (generateIngestionToken g)
             \<and> (\<forall>d \<in> set db. oid d \<noteq> oid doc \<and> tokenHash d \<noteq> tokenHash doc)"
    then obtain doc where doc:
        "createIngestionToken cfg g params db = (Inr (generateIngestionToken g, doc), db @ [doc])"
        "\<forall>d \<in> set db. oid d \<noteq> oid doc \<and> tokenHash d \<noteq> tokenHash doc"
      by blast
    from inv obtain x where x: "x \<in> set db" "oid x = k" "tokenHash x = h"
      unfolding holds_record_def by blast
    with doc(2) have "oid doc \<noteq> k" "tokenHash doc \<noteq> h" by auto
    with inv have "holds_record k h tm sh (db @ [doc])"
      unfolding holds_record_def by auto
    with doc(1) show ?thesis by simp
  qed
qed

lemma apply_operation_holds_record:
  assumes "holds_record k h tm sh db" and "\<not> reassigns k x"
  shows "holds_record k h tm sh (apply_operation cfg x db)"
proof (cases x)
  case (OpCreate g params)
  with assms(1) show ?thesis by (simp add: create_holds_record)
next
  case (OpRevoke t teamId tokenId)
  with assms(1) show ?thesis
    by (simp add: revokeIngestionToken_def findOneAndUpdate_holds_record)
next
  case (OpRotate t g teamId tokenId)
  have "holds_record k h tm sh (snd (revokeIngestionToken t teamId tokenId db))"
    using assms(1) by (simp add: revokeIngestionToken_def findOneAndUpdate_holds_record)
  then show ?thesis
    using OpRotate by (simp add: rotateIngestionToken_def create_holds_record)
next
  case (OpMarkUsed t tokenId)
  with assms(1) show ?thesis
    by (simp add: markIngestionTokenUsed_def findOneAndUpdate_holds_record)
next
  case (OpAssignShard t teamId tokenId shard)
  with assms(2) have ne: "tokenId \<noteq> k" by simp
  have "holds_record k h tm sh
          (snd (findOneAndUpdate (\<lambda>d. oid d = tokenId \<and> team d = teamId \<and> status d = Active)
                  (\<lambda>d. d\<lparr>assignedShard := Some shard, updatedAt := Some t\<rparr>) db))"
    using assms(1) by (rule findOneAndUpdate_holds_record) (use ne in auto)
  with OpAssignShard show ?thesis
    by (simp add: assignIngestionTokenShard_def Let_def)
qed

lemma apply_operations_holds_record:
  "holds_record k h tm sh db \<Longrightarrow> \<not> list_ex (reassigns k) ops
   \<Longrightarrow> holds_record k h tm sh (apply_operations cfg ops db)"
  by (induction ops arbitrary: db) (simp_all add: apply_operation_holds_record)

lemma create_establishes_record:
  assumes "createIngestionToken cfg g params db = (Inr (T, doc), db')"
  shows "holds_record (oid doc) (hashIngestionToken cfg T) (team doc) (assignedShard doc) db'"
proof (cases "select_shard cfg params db")
  case (Inl e)
  from create_error [OF this, of g] assms show ?thesis by simp
next
  case (Inr s)
  from create_cases [OF this, of g] assms
  have "T = generateIngestionToken g" "db' = db @ [doc]"
       "tokenHash doc = hashIngestionToken cfg (generateIngestionToken g)"
       "\<forall>d \<in> set db. oid d \<noteq> oid doc \<and> tokenHash d \<noteq> tokenHash doc"
    by auto
  then show ?thesis unfolding holds_record_def by auto
qed

lemma resolve_held_record:
  assumes "holds_record k (hashIngestionToken cfg T) tm sh db"
      and "record_active k db"
  shows "\<exists>r. resolveIngestionToken cfg T db = Some r
            \<and> r_tokenId r = k \<and> r_teamId r = tm \<and> r_assignedShard r = sh"
proof -
  let ?h = "hashIngestionToken cfg T"
  let ?Q = "\<lambda>d. tokenHash d = ?h \<and> status d = Active"
  from assms(2) obtain x where x: "x \<in> set db" "oid x = k" "status x = Active"
    by (auto simp: record_active_def list_ex_iff)
  with assms(1) have "tokenHash x = ?h" unfolding holds_record_def by blast
  with x have "List.find ?Q db \<noteq> None" by (auto simp: find_None_iff)
  then obtain y where y: "List.find ?Q db = Some y" by auto
  then have yin: "y \<in> set db" "tokenHash y = ?h"
    by (auto simp: find_Some_iff)
  with assms(1) have "oid y = k" "team y = tm" "assignedShard y = sh"
    unfolding holds_record_def by blast+
  with y show ?thesis by (simp add: resolveIngestionToken_def findOne_def)
qed

lemma holds_record_identity: "holds_record k h tm sh db \<Longrightarrow> holds_identity k h tm db"
  unfolding holds_record_def holds_identity_def by blast

lemma findOneAndUpdate_holds_identity:
  assumes inv: "holds_identity k h tm db"
      and f: "\<And>y. oid (f y) = oid y \<and> tokenHash (f y) = tokenHash y \<and> team (f y) = team y"
  shows "holds_identity k h tm (snd (findOneAndUpdate P f db))"
proof -
  let ?db' = "snd (findOneAndUpdate P f db)"
  from inv obtain x where x: "x \<in> set db" "oid x = k"
    unfolding holds_identity_def by blast
  from findOneAndUpdate_keeps [OF x(1), of P f] x(2) f [of x]
  have ex: "\<exists>z \<in> set ?db'. oid z = k" by auto
  have all: "(oid z = k) = (tokenHash z = h) \<and> (oid z = k \<longrightarrow> team z = tm)"
    if "z \<in> set ?db'" for z
  proof -
    from findOneAndUpdate_set [OF that]
    consider "z \<in> set db" | y where "y \<in> set db" "P y" "z = f y" by blast
    then show ?thesis
    proof cases
      case 1
      with inv show ?thesis unfolding holds_identity_def by blast
    next
      case 2
      from inv 2(1) have "(oid y = k) = (tokenHash y = h)" "oid y = k \<longrightarrow> team y = tm"
        unfolding holds_identity_def by blast+
      with 2(3) f [of y] show ?thesis by auto
    qed
  qed
  from ex all show ?thesis unfolding holds_identity_def by blast
qed

lemma create_holds_identity:
  assumes inv: "holds_identity k h tm db"
  shows "holds_identity k h tm (snd (createIngestionToken cfg g params db))"
proof (cases "select_shard cfg params db")
  case (Inl e)
  from create_error [OF this] inv show ?thesis by simp
next
  case (Inr s)
  from create_cases [OF this, of g]
  show ?thesis
  proof
    assume "createIngestionToken cfg g params db = (Inl DuplicateKey, db)"
    with inv show ?thesis by simp
  next
    assume "\<exists>doc. createIngestionToken cfg g params db
                = (Inr (generateIngestionToken g, doc), db @ [doc])
             \<and> assignedShard doc = Some s \<and> team doc = p_teamId params
             \<and> status doc = Active \<and> oid doc = newObjectId g
             \<and> tokenHash doc = hashIngestionToken cfg (generateIngestionToken g)
             \<and> (\<forall>d \<in> set db. oid d \<noteq> oid doc \<and> tokenHash d \<noteq> tokenHash doc)"
    then obtain doc where doc:
        "createIngestionToken cfg g params db = (Inr (generateIngestionToken g, doc), db @ [doc])"
        "\<forall>d \<in> set db. oid d \<noteq> oid doc \<and> tokenHash d \<noteq> tokenHash doc"
      by blast
    from inv obtain x where x: "x \<in> set db" "oid x = k" "tokenHash x = h"
      unfolding holds_identity_def by blast
    with doc(2) have "oid doc \<noteq> k" "tokenHash doc \<noteq> h" by auto
    with inv have "holds_identity k h tm (db @ [doc])"
      unfolding holds_identity_def by auto
    with doc(1) show ?thesis by simp
  qed
qed

lemma apply_operation_holds_identity:
  assumes "holds_identity k h tm db"
  shows "holds_identity k h tm (apply_operation cfg x db)"
proof (cases x)
  case (OpCreate g params)
  with assms show ?thesis by (simp add: create_holds_identity)
next
  case (OpRevoke t teamId tokenId)
  with assms show ?thesis
    by (simp add: revokeIngestionToken_def findOneAndUpdate_holds_identity)
next
  case (OpRotate t g teamId tokenId)
  have "holds_identity k h tm (snd (revokeIngestionToken t teamId tokenId db))"
    using assms by (simp add: revokeIngestionToken_def findOneAndUpdate_holds_identity)
  then show ?thesis
    using OpRotate by (simp add: rotateIngestionToken_def create_holds_identity)
next
  case (OpMarkUsed t tokenId)
  with assms show ?thesis
    by (simp add: markIngestionTokenUsed_def findOneAndUpdate_holds_identity)
next
  case (OpAssignShard t teamId tokenId shard)
  with assms show ?thesis
    by (simp add: assignIngestionTokenShard_def Let_def findOneAndUpdate_holds_identity)
qed

lemma apply_operations_holds_identity:
  "holds_identity k h tm db \<Longrightarrow> holds_identity k h tm (apply_operations cfg ops db)"
  by (induction ops arbitrary: db) (simp_all add: apply_operation_holds_identity)

lemma resolve_held_identity:
  assumes "holds_identity k (hashIngestionToken cfg T) tm db"
      and "record_active k db"
  shows "\<exists>r. resolveIngestionToken cfg T db = Some r \<and> r_tokenId r = k \<and> r_teamId r = tm"
proof -
  let ?h = "hashIngestionToken cfg T"
  let ?Q = "\<lambda>d. tokenHash d = ?h \<and> status d = Active"
  from assms(2) obtain x where x: "x \<in> set db" "oid x = k" "status x = Active"
    by (auto simp: record_active_def list_ex_iff)
  with assms(1) have "tokenHash x = ?h" unfolding holds_identity_def by blast
  with x have "List.find ?Q db \<noteq> None" by (auto simp: find_None_iff)
  then obtain y where y: "List.find ?Q db = Some y" by auto
  then have yin: "y \<in> set db" "tokenHash y = ?h"
    by (auto simp: find_Some_iff)
  with assms(1) have "oid y = k" "team y = tm"
    unfolding holds_identity_def by blast+
  with y show ?thesis by (simp add: resolveIngestionToken_def findOne_def)
qed

text \<open>
  C7, as stated, fails: the claim has \<open>resolve(T)\<close> return the assigned shard of the
  record the create returned for as long as that record is active. The administrative
  override \<^verbatim>\<open>assignIngestionTokenShard\<close> moves an active token to another shard: here
  the create returns a record on \<open>shard-1\<close>, the override puts it on \<open>shard-0\<close>, the
  record is still active, and \<open>resolve(T)\<close> reports \<open>shard-0\<close>.
\<close>

theorem resolve_after_shard_override:
  "createIngestionToken sys0 g1 paramsB [tokA]
     = (Inr (''hdx_ingest_AAAA'', minted ''teamB'' ''shard-1''), [tokA, minted ''teamB'' ''shard-1''])
   \<and> assignedShard (minted ''teamB'' ''shard-1'') = Some ''shard-1''
   \<and> record_active ''id9''
        (apply_operations sys0 [OpAssignShard 13 ''teamB'' ''id9'' ''shard-0'']
           [tokA, minted ''teamB'' ''shard-1''])
   \<and> resolveIngestionToken sys0 ''hdx_ingest_AAAA''
        (apply_operations sys0 [OpAssignShard 13 ''teamB'' ''id9'' ''shard-0'']
           [tokA, minted ''teamB'' ''shard-1''])
     = Some \<lparr>r_tokenId = ''id9'', r_tokenHash = ''sha:hdx_ingest_AAAA'', r_teamId = ''teamB'',
             r_assignedShard = Some ''shard-0''\<rparr>"
  by code_simp

text \<open>
  C7, amended. Resolve round trip. Let a create return the plaintext token \<open>T\<close> and its
  record, and let any sequence of registry operations follow (creates, revokes,
  rotates, mark-used, shard overrides). If the record is still active in the resulting
  collection, \<open>resolve(T)\<close> returns a result, not \<^verbatim>\<open>null\<close>, whose token id and team id
  are those of the record the create returned; its assigned shard is that of the
  record too, provided no shard override was applied to this token in between. With
  the empty sequence this is the resolve that directly follows the create.
\<close>

theorem resolve_round_trip:
  assumes "createIngestionToken cfg g params db = (Inr (T, doc), db')"
      and "record_active (oid doc) (apply_operations cfg ops db')"
  shows "\<exists>r. resolveIngestionToken cfg T (apply_operations cfg ops db') = Some r
            \<and> r_tokenId r = oid doc \<and> r_teamId r = team doc
            \<and> (\<not> list_ex (reassigns (oid doc)) ops
                 \<longrightarrow> r_assignedShard r = assignedShard doc)"
proof -
  let ?db'' = "apply_operations cfg ops db'"
  from assms(1)
  have rec: "holds_record (oid doc) (hashIngestionToken cfg T) (team doc) (assignedShard doc) db'"
    by (rule create_establishes_record)
  then have "holds_identity (oid doc) (hashIngestionToken cfg T) (team doc) db'"
    by (rule holds_record_identity)
  then have "holds_identity (oid doc) (hashIngestionToken cfg T) (team doc) ?db''"
    by (rule apply_operations_holds_identity)
  from resolve_held_identity [OF this assms(2)] obtain r where
    r: "resolveIngestionToken cfg T ?db'' = Some r" "r_tokenId r = oid doc" "r_teamId r = team doc"
    by blast
  have "r_assignedShard r = assignedShard doc" if "\<not> list_ex (reassigns (oid doc)) ops"
  proof -
    from rec that
    have "holds_record (oid doc) (hashIngestionToken cfg T) (team doc) (assignedShard doc) ?db''"
      by (rule apply_operations_holds_record)
    from resolve_held_record [OF this assms(2)] r(1) show ?thesis by auto
  qed
  with r show ?thesis by blast
qed

theorem resolve_round_trip_witness:
  "createIngestionToken sys0 g1 paramsB [tokA]
     = (Inr (''hdx_ingest_AAAA'', minted ''teamB'' ''shard-1''), [tokA, minted ''teamB'' ''shard-1''])
   \<and> record_active ''id9''
        (apply_operations sys0
           [OpMarkUsed 10 ''id9'', OpRevoke 11 ''teamA'' ''id1'', OpCreate g2 paramsA,
            OpAssignShard 13 ''teamA'' ''id10'' ''shard-1'']
           [tokA, minted ''teamB'' ''shard-1''])
   \<and> resolveIngestionToken sys0 ''hdx_ingest_AAAA''
        (apply_operations sys0
           [OpMarkUsed 10 ''id9'', OpRevoke 11 ''teamA'' ''id1'', OpCreate g2 paramsA,
            OpAssignShard 13 ''teamA'' ''id10'' ''shard-1'']
           [tokA, minted ''teamB'' ''shard-1''])
     = Some \<lparr>r_tokenId = ''id9'', r_tokenHash = ''sha:hdx_ingest_AAAA'', r_teamId = ''teamB'',
             r_assignedShard = Some ''shard-1''\<rparr>"
proof -
  let ?ops = "[OpMarkUsed 10 ''id9'', OpRevoke 11 ''teamA'' ''id1'', OpCreate g2 paramsA,
            OpAssignShard 13 ''teamA'' ''id10'' ''shard-1'']"
  let ?doc = "minted ''teamB'' ''shard-1''"
  have h1: "createIngestionToken sys0 g1 paramsB [tokA]
     = (Inr (''hdx_ingest_AAAA'', ?doc), [tokA, ?doc])"
    by code_simp
  have h2: "\<not> list_ex (reassigns (oid ?doc)) ?ops"
    by (simp add: minted_def)
  have h3: "record_active (oid ?doc) (apply_operations sys0 ?ops [tokA, ?doc])"
    by code_simp
  have h4: "r_tokenHash (the (resolveIngestionToken sys0 ''hdx_ingest_AAAA''
              (apply_operations sys0 ?ops [tokA, ?doc]))) = ''sha:hdx_ingest_AAAA''"
    by code_simp
  have o: "oid ?doc = ''id9''" by (simp add: minted_def)
  from resolve_round_trip [OF h1 h3] h2 obtain r where
    r: "resolveIngestionToken sys0 ''hdx_ingest_AAAA'' (apply_operations sys0 ?ops [tokA, ?doc]) = Some r"
       "r_tokenId r = oid ?doc" "r_teamId r = team ?doc" "r_assignedShard r = assignedShard ?doc"
    by blast
  with h4 have "r = \<lparr>r_tokenId = ''id9'', r_tokenHash = ''sha:hdx_ingest_AAAA'', r_teamId = ''teamB'',
             r_assignedShard = Some ''shard-1''\<rparr>"
    by (simp add: minted_def)
  with r(1) h1 h3 o show ?thesis by simp
qed

section \<open>Properties of the collector-config synthesizer\<close>

lemma nopConfig_exporters: "exporter_names nopConfig = [''nop'']"
  by (simp add: exporter_names_def nopConfig_def)

lemma nopConfig_pipelines: "pipeline_names nopConfig = [''logs/nop'', ''traces/nop'', ''metrics/nop'']"
  by (simp add: pipeline_names_def nopConfig_def)

lemma nopConfig_safe:
  "''clickhouse'' \<notin> set (exporter_names nopConfig)
   \<and> has_pipeline_for nopConfig ''logs'' \<and> has_pipeline_for nopConfig ''traces''
   \<and> has_pipeline_for nopConfig ''metrics''"
  by (simp add: nopConfig_exporters has_pipeline_for_def nopConfig_pipelines pipeline_signal_def)

lemma shard_teamIds_free: "\<not> shard_occupied db shardId \<Longrightarrow> shard_teamIds db shardId = []"
proof -
  assume "\<not> shard_occupied db shardId"
  then have "filter (\<lambda>d. status d = Active \<and> assignedShard d = Some shardId) db = []"
    by (auto simp: shard_occupied_def filter_empty_conv)
  then show ?thesis by (simp add: shard_teamIds_def array_from_set_def)
qed

lemma build_nop:
  assumes "\<not> shard_occupied db shardId
           \<or> (\<forall>teamId. selectedTeamId db shardId = Some teamId
                 \<longrightarrow> \<not> has_readable_connection conns teamId)"
  shows "buildShardCollectorConfig db conns shardId = nopConfig"
proof (cases "selectedTeamId db shardId")
  case None
  then show ?thesis by (simp add: buildShardCollectorConfig_def truthy_def)
next
  case (Some teamId)
  with assms have nr: "\<not> has_readable_connection conns teamId"
    by (auto simp: selectedTeamId_def dest: shard_teamIds_free)
  show ?thesis
  proof (cases "findOne (\<lambda>c. c_team c = teamId \<and> c_isManaged c) conns")
    case None
    with Some show ?thesis by (simp add: buildShardCollectorConfig_def Let_def)
  next
    case (Some conn)
    then have "conn \<in> set conns" "c_team conn = teamId \<and> c_isManaged conn"
      by (auto simp: findOne_def find_Some_iff)
    with nr have "\<not> truthy (c_password conn)"
      by (auto simp: has_readable_connection_def list_ex_iff)
    with Some \<open>selectedTeamId db shardId = Some teamId\<close> show ?thesis
      by (simp add: buildShardCollectorConfig_def Let_def)
  qed
qed

text \<open>
  C8. Nop safety. For every shard id: if no team has an active token assigned to the
  shard, or the selected team (the smallest team id on the shard) has no managed
  connection with a readable password, the synthesizer's result contains no
  \<open>clickhouse\<close> exporter and contains at least one pipeline for each of the signals
  logs, traces and metrics.
\<close>

theorem nop_safety:
  assumes "\<not> shard_occupied db shardId
           \<or> (\<forall>teamId. selectedTeamId db shardId = Some teamId
                 \<longrightarrow> \<not> has_readable_connection conns teamId)"
  shows "''clickhouse'' \<notin> set (exporter_names (buildShardCollectorConfig db conns shardId))
       \<and> has_pipeline_for (buildShardCollectorConfig db conns shardId) ''logs''
       \<and> has_pipeline_for (buildShardCollectorConfig db conns shardId) ''traces''
       \<and> has_pipeline_for (buildShardCollectorConfig db conns shardId) ''metrics''"
  using build_nop [OF assms] nopConfig_safe by simp

theorem nop_safety_witness:
  "selectedTeamId [tokB_on0, tokA] ''shard-0'' = Some ''teamA''
   \<and> shard_occupied [tokB_on0, tokA] ''shard-0''
   \<and> \<not> has_readable_connection [connB, connA] ''teamA''
   \<and> has_readable_connection [connB, connA] ''teamB''
   \<and> exporter_names (buildShardCollectorConfig [tokB_on0, tokA] [connB, connA] ''shard-0'') = [''nop'']
   \<and> pipeline_names (buildShardCollectorConfig [tokB_on0, tokA] [connB, connA] ''shard-0'')
        = [''logs/nop'', ''traces/nop'', ''metrics/nop'']
   \<and> \<not> shard_occupied [tokB_on0, tokA] ''shard-1''
   \<and> ''clickhouse'' \<notin> set (exporter_names (buildShardCollectorConfig [tokB_on0, tokA] [connB, connA] ''shard-1''))
   \<and> has_pipeline_for (buildShardCollectorConfig [tokB_on0, tokA] [connB, connA] ''shard-1'') ''logs''"
proof -
  have sel: "selectedTeamId [tokB_on0, tokA] ''shard-0'' = Some ''teamA''"
    by code_simp
  have occ: "shard_occupied [tokB_on0, tokA] ''shard-0''"
    by (simp add: shard_occupied_def tokA_def)
  have free: "\<not> shard_occupied [tokB_on0, tokA] ''shard-1''"
    by (simp add: shard_occupied_def tokA_def tokB_on0_def)
  have nr: "\<not> has_readable_connection [connB, connA] ''teamA''"
    by (simp add: has_readable_connection_def connA_def connB_def truthy_def)
  have rb: "has_readable_connection [connB, connA] ''teamB''"
    by (simp add: has_readable_connection_def connB_def truthy_def)
  have h: "\<not> shard_occupied [tokB_on0, tokA] ''shard-0''
           \<or> (\<forall>teamId. selectedTeamId [tokB_on0, tokA] ''shard-0'' = Some teamId
                 \<longrightarrow> \<not> has_readable_connection [connB, connA] teamId)"
    using sel nr by simp
  have e: "exporter_names (buildShardCollectorConfig [tokB_on0, tokA] [connB, connA] ''shard-0'') = [''nop'']"
    by code_simp
  have p: "pipeline_names (buildShardCollectorConfig [tokB_on0, tokA] [connB, connA] ''shard-0'')
        = [''logs/nop'', ''traces/nop'', ''metrics/nop'']"
    by code_simp
  show ?thesis
    using nop_safety [OF h] nop_safety [of "[tokB_on0, tokA]" "''shard-1''" "[connB, connA]"]
          sel occ free nr rb e p
    by simp
qed

section \<open>Properties of the OpAMP endpoint\<close>

lemma getStringAttr_lacking:
  "lacks_shard_id agent \<Longrightarrow>
   getStringAttr (map_option identifyingAttributes (agentDescription agent)) ''hdx.shard_id'' = None"
proof (cases "agentDescription agent")
  case None
  then show ?thesis by (simp add: getStringAttr_def)
next
  case (Some d)
  assume "lacks_shard_id agent"
  with Some have "List.find (\<lambda>a. kv_key a = ''hdx.shard_id'') (identifyingAttributes d) = None"
    by (simp add: lacks_shard_id_def list_ex_iff find_None_iff)
  with Some show ?thesis by (simp add: getStringAttr_def)
qed

lemma processAgentStatus_registry:
  "snd (processAgentStatus msg reg) = reg(a2s_instanceUid msg \<mapsto> fst (processAgentStatus msg reg))"
  by (simp add: processAgentStatus_def Let_def)

lemma handle_misconfigured:
  assumes "contentType req = Some ''application/x-protobuf''"
      and "decodeAgentToServer (body req) = Some msg"
      and "agentAcceptsRemoteConfig (fst (processAgentStatus msg reg))"
      and "lacks_shard_id (fst (processAgentStatus msg reg))"
  shows "handleOpampMessage decodeAgentToServer serverCaps db conns req reg
           = (\<lparr>res_status = 500, res_body = Text ''Internal Server Error''\<rparr>,
              reg(a2s_instanceUid msg \<mapsto> fst (processAgentStatus msg reg)))"
  using assms getStringAttr_lacking [OF assms(4)] processAgentStatus_registry [of msg reg]
  by (simp add: handleOpampMessage_def split_beta truthy_def)

lemma process_msg0:
  "fst (processAgentStatus msg0 reg0) = agent0" "a2s_instanceUid msg0 = [1, 2, 3]"
  by (simp_all add: processAgentStatus_def msg0_def reg0_def agent0_def Let_def)

lemma agent0_misconfigured: "agentAcceptsRemoteConfig agent0" "lacks_shard_id agent0"
  by (simp_all add: agentAcceptsRemoteConfig_def AcceptsRemoteConfig_def lacks_shard_id_def
        agent0_def msg0_def)

text \<open>
  C3, as stated, fails: the claim has the registry hold the same entries after a request
  that lacks \<^verbatim>\<open>hdx.shard_id\<close> as before it. The handler processes the agent status
  before it looks for the shard id, so the first heartbeat of a misconfigured agent is
  answered 500 and leaves the agent registered: the registry had no entry for its
  instance uid before the request and has one after it.
\<close>

theorem misconfigured_heartbeat_registers_agent:
  "agentAcceptsRemoteConfig agent0 \<and> lacks_shard_id agent0 \<and> reg0 [1, 2, 3] = None
   \<and> handleOpampMessage decode_msg0 0 [] [] req0 reg0
       = (\<lparr>res_status = 500, res_body = Text ''Internal Server Error''\<rparr>,
          reg0([1, 2, 3] \<mapsto> agent0))"
proof -
  have c: "contentType req0 = Some ''application/x-protobuf''"
    by (simp add: req0_def)
  have d: "decode_msg0 (body req0) = Some msg0"
    by (simp add: decode_msg0_def)
  have a: "agentAcceptsRemoteConfig (fst (processAgentStatus msg0 reg0))"
    and l: "lacks_shard_id (fst (processAgentStatus msg0 reg0))"
    by (simp_all add: process_msg0 agent0_misconfigured)
  have "reg0 [1, 2, 3] = None" by (simp add: reg0_def)
  with handle_misconfigured [where decodeAgentToServer = decode_msg0 and req = req0
         and msg = msg0 and reg = reg0 and serverCaps = 0 and db = "[]" and conns = "[]",
         OF c d a l] agent0_misconfigured
  show ?thesis by (simp add: process_msg0)
qed

text \<open>
  C3, amended. For every OpAMP request that decodes to a message whose agent (the
  registry entry merged with the message) accepts remote config and whose identifying
  attributes lack the \<^verbatim>\<open>hdx.shard_id\<close> key, the endpoint responds 500. The token and
  connection collections are only read. The agent registry is the one state that
  changes: it holds the merged entry under the agent's instance uid, and every other
  entry is as before.
\<close>

theorem opamp_misconfigured_agent:
  assumes "contentType req = Some ''application/x-protobuf''"
      and "decodeAgentToServer (body req) = Some msg"
      and "agentAcceptsRemoteConfig (fst (processAgentStatus msg reg))"
      and "lacks_shard_id (fst (processAgentStatus msg reg))"
  shows "handleOpampMessage decodeAgentToServer serverCaps db conns req reg
           = (\<lparr>res_status = 500, res_body = Text ''Internal Server Error''\<rparr>,
              reg(a2s_instanceUid msg \<mapsto> fst (processAgentStatus msg reg)))"
  using assms by (rule handle_misconfigured)

theorem opamp_misconfigured_agent_witness:
  "contentType req0 = Some ''application/x-protobuf'' \<and> decode_msg0 (body req0) = Some msg0
   \<and> agentAcceptsRemoteConfig (fst (processAgentStatus msg0 reg0))
   \<and> lacks_shard_id (fst (processAgentStatus msg0 reg0))
   \<and> handleOpampMessage decode_msg0 7 [tokA] [connA] req0 reg0
       = (\<lparr>res_status = 500, res_body = Text ''Internal Server Error''\<rparr>,
          reg0([1, 2, 3] \<mapsto> agent0))"
proof -
  have c: "contentType req0 = Some ''application/x-protobuf''"
    by (simp add: req0_def)
  have d: "decode_msg0 (body req0) = Some msg0"
    by (simp add: decode_msg0_def)
  have a: "agentAcceptsRemoteConfig (fst (processAgentStatus msg0 reg0))"
    and l: "lacks_shard_id (fst (processAgentStatus msg0 reg0))"
    by (simp_all add: process_msg0 agent0_misconfigured)
  show ?thesis
    using opamp_misconfigured_agent [where decodeAgentToServer = decode_msg0 and req = req0
            and msg = msg0 and reg = reg0 and serverCaps = 7 and db = "[tokA]"
            and conns = "[connA]", OF c d a l] c d a l
    by (simp add: process_msg0)
qed

text \<open>
  C4, as stated, fails: the claim has a body that does not decode answered with 400.
  The handler has a single \<^verbatim>\<open>catch\<close>, which answers 500.
\<close>

theorem opamp_decode_failure_is_500:
  "contentType req0 = Some ''application/x-protobuf'' \<and> decode_fail (body req0) = None
   \<and> handleOpampMessage decode_fail 0 [] [] req0 reg0
       = (\<lparr>res_status = 500, res_body = Text ''Internal Server Error''\<rparr>, reg0)"
  by (simp add: handleOpampMessage_def req0_def decode_fail_def)

text \<open>
  C4, amended. For every request whose Content-Type is not \<^verbatim>\<open>application/x-protobuf\<close>
  the endpoint responds 415; for every body with that Content-Type that fails to decode
  as an \<^verbatim>\<open>AgentToServer\<close> message it responds 500; in both cases the registry is
  untouched. The handler answers with no status other than 200, 415 and 500.
\<close>

theorem opamp_bad_requests:
  "(contentType req \<noteq> Some ''application/x-protobuf'' \<longrightarrow>
      res_status (fst (handleOpampMessage decodeAgentToServer serverCaps db conns req reg)) = 415
      \<and> snd (handleOpampMessage decodeAgentToServer serverCaps db conns req reg) = reg)
   \<and> (contentType req = Some ''application/x-protobuf'' \<and> decodeAgentToServer (body req) = None \<longrightarrow>
      res_status (fst (handleOpampMessage decodeAgentToServer serverCaps db conns req reg)) = 500
      \<and> snd (handleOpampMessage decodeAgentToServer serverCaps db conns req reg) = reg)
   \<and> res_status (fst (handleOpampMessage decodeAgentToServer serverCaps db conns req reg))
        \<in> {200, 415, 500}"
  by (auto simp: handleOpampMessage_def split_beta Let_def split: option.splits)

theorem opamp_bad_requests_witness:
  "contentType req_json \<noteq> Some ''application/x-protobuf''
   \<and> res_status (fst (handleOpampMessage decode_msg0 0 [] [] req_json reg0)) = 415
   \<and> snd (handleOpampMessage decode_msg0 0 [] [] req_json reg0) = reg0
   \<and> contentType req0 = Some ''application/x-protobuf'' \<and> decode_fail (body req0) = None
   \<and> res_status (fst (handleOpampMessage decode_fail 0 [tokA] [connA] req0 reg0)) = 500"
proof -
  have j: "contentType req_json \<noteq> Some ''application/x-protobuf''"
    by (simp add: req_json_def)
  have p: "contentType req0 = Some ''application/x-protobuf''" "decode_fail (body req0) = None"
    by (simp_all add: req0_def decode_fail_def)
  show ?thesis
    using opamp_bad_requests [of req_json decode_msg0 0 "[]" "[]" reg0]
          opamp_bad_requests [of req0 decode_fail 0 "[tokA]" "[connA]" reg0] j p
    by simp
qed

section \<open>Properties of the tenant storage provisioner\<close>

lemma clickhouseAdminQuery_ok:
  "truthy (CLICKHOUSE_ADMIN_HOST cfg) \<Longrightarrow> store_accepts srv
   \<Longrightarrow> clickhouseAdminQuery cfg srv sql sent = (Inr (), sent @ [sql])"
proof -
  assume h: "truthy (CLICKHOUSE_ADMIN_HOST cfg)" and a: "store_accepts srv"
  from a have "case srv sent sql of FetchRejected \<Rightarrow> False
                | HttpResponse st txt \<Rightarrow> 200 \<le> st \<and> st \<le> 299"
    unfolding store_accepts_def by blast
  with h show ?thesis
    by (cases "srv sent sql") (simp_all add: clickhouseAdminQuery_def)
qed

lemma provision_full_run:
  assumes "CLICKHOUSE_TENANT_PROVISIONING_ENABLED cfg"
      and "truthy (CLICKHOUSE_ADMIN_HOST cfg)" and "store_accepts srv"
  shows "provisionTenantClickhouse cfg srv password teamId sent =
           (Inr (Some \<lparr>pt_database = ''tenant_'' @ teamId, pt_username = ''tenant_'' @ teamId,
                       pt_password = password\<rparr>),
            sent @ provision_statements (''tenant_'' @ teamId) (''tenant_'' @ teamId) password)"
  using assms(1)
  by (simp add: provisionTenantClickhouse_def clickhouseAdminQuery_ok [OF assms(2,3)]
        provision_statements_def getTenantDbName_def getTenantDbUser_def Let_def)

lemma creates_table_header:
  "creates_table database table (create_table_header database table' @ rest)
     = prefix (table @ ''\<newline>'') (table' @ ''\<newline>'' @ rest)"
  by (simp add: creates_table_def create_table_header_def)

lemma not_creates_table_plain:
  "\<not> creates_table database table (create_database_stmt database')"
  "\<not> creates_table database table (create_user_stmt username password)"
  "\<not> creates_table database table (grant_stmt database' username)"
  by (simp_all add: creates_table_def create_table_header_def create_database_stmt_def
        create_user_stmt_def grant_stmt_def)

lemma created_tables_full_run:
  "created_tables_among database canonical_tables (provision_statements database username password)
     = [''otel_logs'', ''otel_traces'', ''hyperdx_sessions'']"
  by (simp add: created_tables_among_def canonical_tables_def provision_statements_def
        not_creates_table_plain create_otel_logs_stmt_def create_otel_traces_stmt_def
        create_hyperdx_sessions_stmt_def creates_table_header)

text \<open>
  C2, as stated, fails: the claim has the provisioner create all six canonical tables,
  the three metric tables among them. A full run for team \<open>t1\<close>, every statement
  accepted, creates three of the six: no statement creates \<open>otel_metrics_gauge\<close>,
  \<open>otel_metrics_sum\<close> or \<open>otel_metrics_histogram\<close>.
\<close>

theorem provision_creates_no_metric_tables:
  "CLICKHOUSE_TENANT_PROVISIONING_ENABLED ch_cfg0
   \<and> fst (provisionTenantClickhouse ch_cfg0 srv_ok pw0 ''t1'' [])
       = Inr (Some \<lparr>pt_database = ''tenant_t1'', pt_username = ''tenant_t1'', pt_password = pw0\<rparr>)
   \<and> created_tables_among ''tenant_t1'' canonical_tables
        (snd (provisionTenantClickhouse ch_cfg0 srv_ok pw0 ''t1'' []))
       = [''otel_logs'', ''otel_traces'', ''hyperdx_sessions'']"
proof -
  have e: "CLICKHOUSE_TENANT_PROVISIONING_ENABLED ch_cfg0"
    and h: "truthy (CLICKHOUSE_ADMIN_HOST ch_cfg0)"
    by (simp_all add: ch_cfg0_def truthy_def)
  have a: "store_accepts srv_ok"
    by (simp add: store_accepts_def srv_ok_def)
  show ?thesis
    using e by (simp add: provision_full_run [OF e h a] created_tables_full_run)
qed

text \<open>
  C2, amended. For every team id, when provisioning is enabled, the admin host is
  configured and the store accepts each statement, the provisioner succeeds and sends
  exactly six statements; among the canonical tables it executes an idempotent
  \<^verbatim>\<open>CREATE TABLE IF NOT EXISTS\<close> in the tenant database \<open>tenant_<team_id>\<close> for
  \<open>otel_logs\<close>, \<open>otel_traces\<close> and \<open>hyperdx_sessions\<close>, and for none of the three
  metric tables.
\<close>

theorem provision_creates_three_tables:
  assumes "CLICKHOUSE_TENANT_PROVISIONING_ENABLED cfg"
      and "truthy (CLICKHOUSE_ADMIN_HOST cfg)" and "store_accepts srv"
  shows "fst (provisionTenantClickhouse cfg srv password teamId sent)
           = Inr (Some \<lparr>pt_database = ''tenant_'' @ teamId, pt_username = ''tenant_'' @ teamId,
                        pt_password = password\<rparr>)
       \<and> snd (provisionTenantClickhouse cfg srv password teamId sent)
           = sent @ provision_statements (''tenant_'' @ teamId) (''tenant_'' @ teamId) password
       \<and> created_tables_among (''tenant_'' @ teamId) canonical_tables
           (provision_statements (''tenant_'' @ teamId) (''tenant_'' @ teamId) password)
           = [''otel_logs'', ''otel_traces'', ''hyperdx_sessions'']"
  by (simp add: provision_full_run [OF assms] created_tables_full_run)

theorem provision_creates_three_tables_witness:
  "CLICKHOUSE_TENANT_PROVISIONING_ENABLED ch_cfg0 \<and> truthy (CLICKHOUSE_ADMIN_HOST ch_cfg0)
   \<and> store_accepts srv_ok
   \<and> map (take 51) (snd (provisionTenantClickhouse ch_cfg0 srv_ok pw0 ''t1'' []))
       = [''CREATE DATABASE IF NOT EXISTS `tenant_t1`'',
          ''CREATE USER IF NOT EXISTS `tenant_t1` IDENTIFIED WI'',
          ''GRANT SELECT, INSERT, ALTER, CREATE, DROP, TRUNCATE'',
          ''\<newline>CREATE TABLE IF NOT EXISTS `tenant_t1`.otel_logs\<newline>('',
          ''\<newline>CREATE TABLE IF NOT EXISTS `tenant_t1`.otel_traces'',
          ''\<newline>CREATE TABLE IF NOT EXISTS `tenant_t1`.hyperdx_ses'']
   \<and> created_tables_among ''tenant_t1'' canonical_tables
        (snd (provisionTenantClickhouse ch_cfg0 srv_ok pw0 ''t1'' []))
       = [''otel_logs'', ''otel_traces'', ''hyperdx_sessions'']"
proof -
  have e: "CLICKHOUSE_TENANT_PROVISIONING_ENABLED ch_cfg0"
    and h: "truthy (CLICKHOUSE_ADMIN_HOST ch_cfg0)"
    by (simp_all add: ch_cfg0_def truthy_def)
  have a: "store_accepts srv_ok"
    by (simp add: store_accepts_def srv_ok_def)
  have hd: "map (take 51) (provision_statements ''tenant_t1'' ''tenant_t1'' pw0)
       = [''CREATE DATABASE IF NOT EXISTS `tenant_t1`'',
          ''CREATE USER IF NOT EXISTS `tenant_t1` IDENTIFIED WI'',
          ''GRANT SELECT, INSERT, ALTER, CREATE, DROP, TRUNCATE'',
          ''\<newline>CREATE TABLE IF NOT EXISTS `tenant_t1`.otel_logs\<newline>('',
          ''\<newline>CREATE TABLE IF NOT EXISTS `tenant_t1`.otel_traces'',
          ''\<newline>CREATE TABLE IF NOT EXISTS `tenant_t1`.hyperdx_ses'']"
    by code_simp
  from provision_creates_three_tables [OF e h a, of pw0 "''t1''" "[]"]
  have s: "snd (provisionTenantClickhouse ch_cfg0 srv_ok pw0 ''t1'' [])
             = provision_statements ''tenant_t1'' ''tenant_t1'' pw0"
    and c: "created_tables_among ''tenant_t1'' canonical_tables
              (provision_statements ''tenant_t1'' ''tenant_t1'' pw0)
             = [''otel_logs'', ''otel_traces'', ''hyperdx_sessions'']"
    by simp_all
  show ?thesis
    unfolding s using e h a hd c by (intro conjI)
qed

end
